theory Spec2Isabelle
  imports Complex_Main
begin

section \<open>JavaScript numbers\<close>

text \<open>
  A JavaScript Number is an IEEE-754 binary64 value. A finite one is modelled by the
  rational it denotes; the two zeros are identified (no operation of the program
  tells them apart: comparisons, \<open>||\<close>, \<open>toFixed\<close> and \<open>String\<close> treat them alike,
  and the only divisor is the literal 100).
\<close>

datatype jsnum = NaN | PosInf | NegInf | Fin rat

text \<open>Number of digits of a positive integer \<open>n\<close> in base \<open>b\<close>.\<close>

function ndigits :: "int \<Rightarrow> int \<Rightarrow> int" where
  "ndigits b n = (if 1 < b \<and> 0 < n then 1 + ndigits b (n div b) else 0)"
  by pat_completeness auto
termination
proof (relation "measure (\<lambda>(b, n). nat n)")
  show "wf (measure (\<lambda>(b, n). nat n))" by simp
next
  fix b n :: int
  assume "1 < b \<and> 0 < n"
  then have "n div b < n" by (simp add: int_div_less_self)
  then show "((b, n div b), (b, n)) \<in> measure (\<lambda>(b, n). nat n)"
    using \<open>1 < b \<and> 0 < n\<close> by simp
qed

declare ndigits.simps [simp del]

text \<open>\<open>ilog b x\<close> is the integer \<open>e\<close> with \<open>b\<^sup>e \<le> x < b\<^sup>e\<^sup>+\<^sup>1\<close>, for \<open>x > 0\<close>.\<close>

definition ilog :: "int \<Rightarrow> rat \<Rightarrow> int" where
  "ilog b x = (if 1 \<le> x then ndigits b \<lfloor>x\<rfloor> - 1 else - ndigits b (\<lceil>1 / x\<rceil> - 1))"

definition round_half_even :: "rat \<Rightarrow> int" where
  "round_half_even x = (let f = \<lfloor>x\<rfloor>; d = x - of_int f in
     if d < 1 / 2 then f else if 1 / 2 < d then f + 1 else if even f then f else f + 1)"

text \<open>
  Rounding of an exact result to binary64, round-to-nearest, ties to even: 53 significant
  bits, least exponent \<open>-1022\<close> (below it the spacing stays \<open>2\<^sup>-\<^sup>1\<^sup>0\<^sup>7\<^sup>4\<close>), overflow to an
  infinity when the rounded magnitude reaches \<open>2\<^sup>1\<^sup>0\<^sup>2\<^sup>4\<close>.
\<close>

definition fl :: "rat \<Rightarrow> jsnum" where
  "fl r = (if r = 0 then Fin 0 else
     let e = max (ilog 2 \<bar>r\<bar>) (- 1022);
         q = 2 powi (e - 52);
         v = of_int (round_half_even (r / q)) * q
     in if 2 ^ 1024 \<le> \<bar>v\<bar> then (if 0 < r then PosInf else NegInf) else Fin v)"

definition sign_of :: "jsnum \<Rightarrow> int" where
  "sign_of a = (case a of NaN \<Rightarrow> 0 | PosInf \<Rightarrow> 1 | NegInf \<Rightarrow> - 1
     | Fin x \<Rightarrow> (if x < 0 then - 1 else if 0 < x then 1 else 0))"

definition inf_of_sign :: "int \<Rightarrow> jsnum" where
  "inf_of_sign s = (if s = 0 then NaN else if 0 < s then PosInf else NegInf)"

text \<open>The operators \<open>*\<close>, \<open>/\<close> and \<open>+\<close> on Numbers.\<close>

fun js_mul :: "jsnum \<Rightarrow> jsnum \<Rightarrow> jsnum" where
  "js_mul NaN b = NaN"
| "js_mul a NaN = NaN"
| "js_mul (Fin x) (Fin y) = fl (x * y)"
| "js_mul a b = inf_of_sign (sign_of a * sign_of b)"

fun js_div :: "jsnum \<Rightarrow> jsnum \<Rightarrow> jsnum" where
  "js_div NaN b = NaN"
| "js_div a NaN = NaN"
| "js_div (Fin x) (Fin y) = (if y = 0 then inf_of_sign (sign_of (Fin x)) else fl (x / y))"
| "js_div (Fin x) b = Fin 0"
| "js_div a (Fin y) = inf_of_sign (sign_of a * (if y < 0 then - 1 else 1))"
| "js_div a b = NaN"

fun js_add :: "jsnum \<Rightarrow> jsnum \<Rightarrow> jsnum" where
  "js_add NaN b = NaN"
| "js_add a NaN = NaN"
| "js_add (Fin x) (Fin y) = fl (x + y)"
| "js_add (Fin x) b = b"
| "js_add a (Fin y) = a"
| "js_add a b = (if a = b then a else NaN)"

text \<open>The comparison \<open>a <= b\<close>: false as soon as one side is NaN.\<close>

fun js_le :: "jsnum \<Rightarrow> jsnum \<Rightarrow> bool" where
  "js_le NaN b = False"
| "js_le a NaN = False"
| "js_le (Fin x) (Fin y) = (x \<le> y)"
| "js_le NegInf b = True"
| "js_le a PosInf = True"
| "js_le a b = False"

fun isFinite :: "jsnum \<Rightarrow> bool" where
  "isFinite (Fin x) = True"
| "isFinite a = False"

fun isInteger :: "jsnum \<Rightarrow> bool" where
  "isInteger (Fin x) = (of_int \<lfloor>x\<rfloor> = x)"
| "isInteger a = False"

text \<open>\<open>Math.round\<close>: the nearest integer, a tie going up.\<close>

fun Math_round :: "jsnum \<Rightarrow> jsnum" where
  "Math_round (Fin x) = Fin (of_int \<lfloor>x + 1 / 2\<rfloor>)"
| "Math_round a = a"

text \<open>A Number in a boolean position: \<open>0\<close> and \<open>NaN\<close> are falsy.\<close>

definition truthy_num :: "jsnum \<Rightarrow> bool" where
  "truthy_num a = (a \<noteq> NaN \<and> a \<noteq> Fin 0)"

section \<open>Numbers and strings\<close>

definition digit_char :: "int \<Rightarrow> char" where
  "digit_char d = ''0123456789'' ! nat d"

text \<open>The decimal digits of an integer \<open>n \<ge> 0\<close>.\<close>

function decimal :: "int \<Rightarrow> string" where
  "decimal n = (if n < 10 then [digit_char n] else decimal (n div 10) @ [digit_char (n mod 10)])"
  by pat_completeness auto
termination
proof (relation "measure nat")
  show "wf (measure nat)" by simp
next
  fix n :: int
  assume "\<not> n < 10"
  then have "n div 10 < n" by (simp add: int_div_less_self)
  then show "(n div 10, n) \<in> measure nat" using \<open>\<not> n < 10\<close> by simp
qed

declare decimal.simps [simp del]

text \<open>
  \<open>Number::toString\<close> (radix 10) of a finite \<open>x > 0\<close>: integers \<open>n\<close>, \<open>k\<close>, \<open>s\<close> with
  \<open>k \<ge> 1\<close>, \<open>10\<^sup>k\<^sup>-\<^sup>1 \<le> s < 10\<^sup>k\<close>, \<open>s \<times> 10\<^sup>n\<^sup>-\<^sup>k\<close> rounding to \<open>x\<close>, and \<open>k\<close> as small as
  possible; among several \<open>s\<close> the one closest to \<open>x\<close>. Seventeen digits always suffice.
  \<open>digit_candidates x k n\<close> lists the admissible \<open>(s, n)\<close> for given \<open>k\<close> and \<open>n\<close>.
\<close>

definition digit_candidates :: "rat \<Rightarrow> int \<Rightarrow> int \<Rightarrow> (int \<times> int) list" where
  "digit_candidates x k n =
     map (\<lambda>s. (s, n))
       (filter (\<lambda>s. 10 ^ nat (k - 1) \<le> s \<and> s < 10 ^ nat k \<and> fl (of_int s * 10 powi (n - k)) = Fin x)
         (remdups [\<lfloor>x / 10 powi (n - k)\<rfloor>, \<lceil>x / 10 powi (n - k)\<rceil>]))"

definition closer :: "rat \<Rightarrow> int \<Rightarrow> (int \<times> int) \<Rightarrow> (int \<times> int) \<Rightarrow> (int \<times> int)" where
  "closer x k c d =
     (let dc = \<bar>of_int (fst c) * 10 powi (snd c - k) - x\<bar>;
          dd = \<bar>of_int (fst d) * 10 powi (snd d - k) - x\<bar>
      in if dd < dc \<or> (dd = dc \<and> even (fst d) \<and> odd (fst c)) then d else c)"

fun shortest_digits :: "rat \<Rightarrow> int \<Rightarrow> int list \<Rightarrow> (int \<times> int)" where
  "shortest_digits x n0 [] = (0, 0)"
| "shortest_digits x n0 (k # ks) =
     (case digit_candidates x k n0 @ digit_candidates x k (n0 + 1) of
        [] \<Rightarrow> shortest_digits x n0 ks
      | c # cs \<Rightarrow> foldl (closer x k) c cs)"

definition pos_to_string :: "rat \<Rightarrow> string" where
  "pos_to_string x =
     (let (s, n) = shortest_digits x (ilog 10 x + 1) [1, 2, 3, 4, 5, 6, 7, 8, 9, 10, 11, 12, 13, 14, 15, 16, 17];
          ds = decimal s;
          k = int (length ds)
      in if k \<le> n \<and> n \<le> 21 then ds @ replicate (nat (n - k)) CHR ''0''
         else if 0 < n \<and> n \<le> 21 then take (nat n) ds @ ''.'' @ drop (nat n) ds
         else if - 6 < n \<and> n \<le> 0 then ''0.'' @ replicate (nat (- n)) CHR ''0'' @ ds
         else let e = n - 1;
                  es = (if e < 0 then ''-'' else ''+'') @ decimal \<bar>e\<bar>
              in if k = 1 then ds @ ''e'' @ es
                 else take 1 ds @ ''.'' @ drop 1 ds @ ''e'' @ es)"

text \<open>\<open>String(x)\<close> for a Number \<open>x\<close>.\<close>

fun numberToString :: "jsnum \<Rightarrow> string" where
  "numberToString NaN = ''NaN''"
| "numberToString PosInf = ''Infinity''"
| "numberToString NegInf = ''-Infinity''"
| "numberToString (Fin x) =
     (if x = 0 then ''0'' else if x < 0 then ''-'' @ pos_to_string (- x) else pos_to_string x)"

text \<open>
  \<open>x.toFixed(2)\<close>: a non-finite \<open>x\<close> and a magnitude of \<open>10\<^sup>2\<^sup>1\<close> or more are printed as
  \<open>String\<close> prints them; otherwise the integer \<open>n\<close> with \<open>n / 100\<close> closest to \<open>x\<close> (the
  larger of two) is printed with a point before its last two digits (\<open>two_decimals\<close>: the
  digits of \<open>n\<close>, padded with zeros on the left to three digits).
\<close>

definition two_decimals :: "int \<Rightarrow> string" where
  "two_decimals n =
     (let m = decimal n;
          m' = (if length m \<le> 2 then replicate (3 - length m) CHR ''0'' @ m else m)
      in take (length m' - 2) m' @ ''.'' @ drop (length m' - 2) m')"

definition fixed2 :: "rat \<Rightarrow> string" where
  "fixed2 x = two_decimals \<lfloor>x * 100 + 1 / 2\<rfloor>"

fun toFixed2 :: "jsnum \<Rightarrow> string" where
  "toFixed2 (Fin x) =
     (if x < 0
      then ''-'' @ (if 10 ^ 21 \<le> - x then numberToString (Fin (- x)) else fixed2 (- x))
      else (if 10 ^ 21 \<le> x then numberToString (Fin x) else fixed2 x))"
| "toFixed2 a = numberToString a"

text \<open>
  White space as \<open>String.prototype.trim\<close> and \<open>Number(string)\<close> strip it. A \<open>string\<close> is a
  list of 8-bit characters, read as the code units U+0000 to U+00FF; of the white space
  and line terminators of the language these are TAB, LF, VT, FF, CR, SP and NBSP.
\<close>

definition is_ws :: "char \<Rightarrow> bool" where
  "is_ws c = (c \<in> set [CHR 0x09, CHR 0x0A, CHR 0x0B, CHR 0x0C, CHR 0x0D, CHR 0x20, CHR 0xA0])"

definition trim :: "string \<Rightarrow> string" where
  "trim s = rev (dropWhile is_ws (rev (dropWhile is_ws s)))"

definition digit_of :: "char \<Rightarrow> int option" where
  "digit_of c = map_of (zip ''0123456789abcdef'' [0, 1, 2, 3, 4, 5, 6, 7, 8, 9, 10, 11, 12, 13, 14, 15]) c"

definition lower :: "char \<Rightarrow> char" where
  "lower c = (case map_of (zip ''ABCDEFXOB'' ''abcdefxob'') c of Some d \<Rightarrow> d | None \<Rightarrow> c)"

text \<open>The digits of \<open>s\<close> read in base \<open>b\<close>; \<open>None\<close> when \<open>s\<close> is empty or holds another character.\<close>

definition digits_in :: "int \<Rightarrow> string \<Rightarrow> int option" where
  "digits_in b s =
     (if s \<noteq> [] \<and> list_all (\<lambda>c. case digit_of (lower c) of Some d \<Rightarrow> d < b | None \<Rightarrow> False) s
      then Some (foldl (\<lambda>a c. a * b + the (digit_of (lower c))) 0 s) else None)"

text \<open>
  An unsigned decimal literal: \<open>Infinity\<close>, or digits with an optional fraction and an
  optional exponent part (\<open>12\<close>, \<open>12.\<close>, \<open>12.5\<close>, \<open>.5\<close>, \<open>1e+21\<close>).
\<close>

definition exponent_of :: "string \<Rightarrow> int option" where
  "exponent_of s =
     (case s of
        [] \<Rightarrow> Some 0
      | c # t \<Rightarrow>
          (case t of
             [] \<Rightarrow> None
           | d # u \<Rightarrow> if d = CHR ''-'' then map_option uminus (digits_in 10 u)
                       else if d = CHR ''+'' then digits_in 10 u
                       else digits_in 10 t))"

definition unsigned_decimal :: "string \<Rightarrow> jsnum option" where
  "unsigned_decimal s =
     (if s = ''Infinity'' then Some PosInf
      else let mant = takeWhile (\<lambda>c. lower c \<noteq> CHR ''e'') s;
               ex = dropWhile (\<lambda>c. lower c \<noteq> CHR ''e'') s;
               ip = takeWhile (\<lambda>c. c \<noteq> CHR ''.'') mant;
               fp = drop 1 (dropWhile (\<lambda>c. c \<noteq> CHR ''.'') mant)
           in case (digits_in 10 (ip @ fp), exponent_of ex) of
                (Some m, Some e) \<Rightarrow>
                   if (ip = [] \<or> digits_in 10 ip \<noteq> None) \<and> (fp = [] \<or> digits_in 10 fp \<noteq> None)
                   then Some (fl (of_int m * 10 powi (e - int (length fp)))) else None
              | _ \<Rightarrow> None)"

definition js_neg :: "jsnum \<Rightarrow> jsnum" where
  "js_neg a = (case a of NaN \<Rightarrow> NaN | PosInf \<Rightarrow> NegInf | NegInf \<Rightarrow> PosInf | Fin x \<Rightarrow> Fin (- x))"

text \<open>\<open>Number(s)\<close> for a string \<open>s\<close>.\<close>

definition StringToNumber :: "string \<Rightarrow> jsnum" where
  "StringToNumber s =
     (let t = trim s in
      if t = [] then Fin 0
      else if map lower (take 2 t) = ''0x'' then (case digits_in 16 (drop 2 t) of Some n \<Rightarrow> fl (of_int n) | None \<Rightarrow> NaN)
      else if map lower (take 2 t) = ''0o'' then (case digits_in 8 (drop 2 t) of Some n \<Rightarrow> fl (of_int n) | None \<Rightarrow> NaN)
      else if map lower (take 2 t) = ''0b'' then (case digits_in 2 (drop 2 t) of Some n \<Rightarrow> fl (of_int n) | None \<Rightarrow> NaN)
      else if hd t = CHR ''-'' then (case unsigned_decimal (tl t) of Some a \<Rightarrow> js_neg a | None \<Rightarrow> NaN)
      else if hd t = CHR ''+'' then (case unsigned_decimal (tl t) of Some a \<Rightarrow> a | None \<Rightarrow> NaN)
      else (case unsigned_decimal t of Some a \<Rightarrow> a | None \<Rightarrow> NaN))"

section \<open>JSON values and property access\<close>

text \<open>
  A value parsed from JSON, with \<open>undefined\<close> for what a read of a missing property
  gives. An object is the list of its properties, keys distinct.
\<close>

datatype jsval = JUndefined | JNull | JBool bool | JNum jsnum | JStr string
  | JArr "jsval list" | JObj "(string \<times> jsval) list"

text \<open>An exception: its \<open>message\<close>, and the \<open>status\<close> and \<open>paypal\<close> properties when set.\<close>

record js_error =
  message :: string
  err_status :: "nat option"
  paypal :: "jsval option"

definition Error :: "string \<Rightarrow> js_error" where
  "Error msg = \<lparr>message = msg, err_status = None, paypal = None\<rparr>"

definition nullish :: "jsval \<Rightarrow> bool" where
  "nullish v = (v = JUndefined \<or> v = JNull)"

text \<open>\<open>a ?? b\<close>\<close>

definition coalesce :: "jsval \<Rightarrow> jsval \<Rightarrow> jsval" where
  "coalesce a b = (if nullish a then b else a)"

fun truthy :: "jsval \<Rightarrow> bool" where
  "truthy JUndefined = False"
| "truthy JNull = False"
| "truthy (JBool b) = b"
| "truthy (JNum x) = truthy_num x"
| "truthy (JStr s) = (s \<noteq> [])"
| "truthy v = True"

definition TypeError :: "string \<Rightarrow> string \<Rightarrow> js_error" where
  "TypeError of_what k = Error (''Cannot read properties of '' @ of_what @ '' (reading '' @ [CHR 0x27] @ k @ [CHR 0x27] @ '')'')"

text \<open>
  \<open>v.k\<close> for the property names the program reads (\<open>id\<close>, \<open>name\<close>, \<open>price\<close>,
  \<open>purchase_units\<close>, \<open>message\<close>, ...; none of them is a property of a string, a number,
  a boolean or an array): a TypeError on \<open>undefined\<close> and \<open>null\<close>.
\<close>

fun get_prop :: "jsval \<Rightarrow> string \<Rightarrow> js_error + jsval" where
  "get_prop JUndefined k = Inl (TypeError ''undefined'' k)"
| "get_prop JNull k = Inl (TypeError ''null'' k)"
| "get_prop (JObj kvs) k = Inr (case map_of kvs k of Some v \<Rightarrow> v | None \<Rightarrow> JUndefined)"
| "get_prop v k = Inr JUndefined"

text \<open>\<open>v?.k\<close>: \<open>undefined\<close> on \<open>undefined\<close> and \<open>null\<close>.\<close>

definition opt :: "jsval \<Rightarrow> string \<Rightarrow> jsval" where
  "opt v k = (case get_prop v k of Inl e \<Rightarrow> JUndefined | Inr x \<Rightarrow> x)"

text \<open>\<open>v?.[0]\<close>: the first element of an array, the first character of a string.\<close>

fun opt_index0 :: "jsval \<Rightarrow> jsval" where
  "opt_index0 (JArr xs) = (case xs of [] \<Rightarrow> JUndefined | x # rest \<Rightarrow> x)"
| "opt_index0 (JStr s) = (case s of [] \<Rightarrow> JUndefined | c # rest \<Rightarrow> JStr [c])"
| "opt_index0 (JObj kvs) = (case map_of kvs ''0'' of Some v \<Rightarrow> v | None \<Rightarrow> JUndefined)"
| "opt_index0 v = JUndefined"

fun join_commas :: "string list \<Rightarrow> string" where
  "join_commas [] = []"
| "join_commas [x] = x"
| "join_commas (x # y # ys) = x @ '','' @ join_commas (y # ys)"

text \<open>
  \<open>ToString\<close>, the string a template literal, \<open>new Error(v)\<close> or \<open>Number(v)\<close> makes of a
  value. An array is joined with commas, \<open>undefined\<close> and \<open>null\<close> elements giving the
  empty string. An object gives \<open>[object Object]\<close> by the \<open>toString\<close> it inherits; when it
  has a property \<open>toString\<close> of its own, which in a value parsed from JSON is never a
  function, the conversion throws a TypeError (the \<open>valueOf\<close> it has or inherits does not
  give a primitive either).
\<close>

fun to_string :: "jsval \<Rightarrow> js_error + string"
  and to_strings :: "jsval list \<Rightarrow> js_error + string list" where
  "to_string JUndefined = Inr ''undefined''"
| "to_string JNull = Inr ''null''"
| "to_string (JBool b) = Inr (if b then ''true'' else ''false'')"
| "to_string (JNum x) = Inr (numberToString x)"
| "to_string (JStr s) = Inr s"
| "to_string (JArr xs) = (case to_strings xs of Inl e \<Rightarrow> Inl e | Inr ss \<Rightarrow> Inr (join_commas ss))"
| "to_string (JObj kvs) =
     (if map_of kvs ''toString'' = None then Inr ''[object Object]''
      else Inl (Error ''Cannot convert object to primitive value''))"
| "to_strings [] = Inr []"
| "to_strings (x # xs) =
     (case (if x = JUndefined \<or> x = JNull then Inr [] else to_string x) of
        Inl e \<Rightarrow> Inl e
      | Inr s \<Rightarrow> (case to_strings xs of Inl e \<Rightarrow> Inl e | Inr ss \<Rightarrow> Inr (s # ss)))"

text \<open>
  \<open>Number(v)\<close>: an array or an object is converted to the string above first (its
  inherited \<open>valueOf\<close> returns the object itself).
\<close>

definition ToNumber :: "jsval \<Rightarrow> js_error + jsnum" where
  "ToNumber v =
     (case v of
        JUndefined \<Rightarrow> Inr NaN
      | JNull \<Rightarrow> Inr (Fin 0)
      | JBool b \<Rightarrow> Inr (if b then Fin 1 else Fin 0)
      | JNum x \<Rightarrow> Inr x
      | JStr s \<Rightarrow> Inr (StringToNumber s)
      | _ \<Rightarrow> (case to_string v of Inl e \<Rightarrow> Inl e | Inr s \<Rightarrow> Inr (StringToNumber s)))"

section \<open>Cart normalisation (\<open>amountToString\<close>, \<open>normalizeItems\<close>, \<open>calculateOrderTotal\<close>)\<close>

text \<open>
  \<^verbatim>\<open>const amountToString = (value) => (Math.round(Number(value || 0) * 100) / 100).toFixed(2);\<close>
  Both callers pass a Number.
\<close>

definition amountToString :: "jsnum \<Rightarrow> string" where
  "amountToString v =
     toFixed2 (js_div (Math_round (js_mul (if truthy_num v then v else Fin 0) (Fin 100))) (Fin 100))"

record money =
  currency_code :: string
  val :: string

text \<open>
  A normalized item. \<open>reference_id\<close> and \<open>category\<close> are the \<open>id\<close> and \<open>category\<close> of the
  request when it has them, values of any JSON type, and strings otherwise.
\<close>

record normalized_item =
  reference_id :: jsval
  name :: string
  quantity :: string
  category :: jsval
  unit_amount :: money

text \<open>
  \<open>v?.trim()\<close> as \<open>item?.name?.trim()\<close> calls it: \<open>undefined\<close> (here \<open>None\<close>) on \<open>undefined\<close>
  and \<open>null\<close>, the trimmed string on a string. Any other value has no function \<open>trim\<close>,
  and the call throws a TypeError.
\<close>

definition optional_trim :: "jsval \<Rightarrow> js_error + string option" where
  "optional_trim v =
     (case v of
        JUndefined \<Rightarrow> Inr None
      | JNull \<Rightarrow> Inr None
      | JStr s \<Rightarrow> Inr (Some (trim s))
      | _ \<Rightarrow> Inl (Error ''item?.name?.trim is not a function''))"

text \<open>
  The callback of \<open>items.map\<close>, for the item at \<open>index\<close> (from 0); the item is any JSON
  value. The three \<open>const\<close> are evaluated in the order of the source, before the checks, and
  the first exception among them is the one thrown. \<open>CHR 0x22\<close> is the double quote of the
  two messages that name the item.
\<close>

definition normalizeItem :: "string \<Rightarrow> nat \<Rightarrow> jsval \<Rightarrow> js_error + normalized_item" where
  "normalizeItem PAYPAL_CURRENCY index item =
     (let name = optional_trim (opt item ''name'');
          quantity = ToNumber (coalesce (opt item ''quantity'') (JNum (Fin 1)));
          price = ToNumber (coalesce (opt item ''price'') (JNum (Fin 0)))
      in case name of Inl e \<Rightarrow> Inl e | Inr nm \<Rightarrow>
        (case quantity of Inl e \<Rightarrow> Inl e | Inr q \<Rightarrow>
        (case price of Inl e \<Rightarrow> Inl e | Inr p \<Rightarrow>
           if nm = None \<or> nm = Some []
             then Inl (Error (''Item #'' @ decimal (int index + 1) @ '' is missing a name.''))
           else if \<not> isFinite p \<or> js_le p (Fin 0)
             then Inl (Error (''Item '' @ [CHR 0x22] @ the nm @ [CHR 0x22] @ '' has an invalid price.''))
           else if \<not> isInteger q \<or> js_le q (Fin 0)
             then Inl (Error (''Item '' @ [CHR 0x22] @ the nm @ [CHR 0x22] @ '' has an invalid quantity.''))
           else Inr \<lparr>reference_id = coalesce (opt item ''id'') (JStr (''ITEM-'' @ decimal (int index + 1))),
                     name = the nm,
                     quantity = numberToString q,
                     category = coalesce (opt item ''category'') (JStr ''DIGITAL_GOODS''),
                     unit_amount = \<lparr>currency_code = PAYPAL_CURRENCY, val = amountToString p\<rparr>\<rparr>)))"

text \<open>\<open>items.map\<close>: the callback runs on the elements in order; its first exception ends the map.\<close>

fun map_items :: "string \<Rightarrow> nat \<Rightarrow> jsval list \<Rightarrow> js_error + normalized_item list" where
  "map_items cur index [] = Inr []"
| "map_items cur index (item # rest) =
     (case normalizeItem cur index item of
        Inl e \<Rightarrow> Inl e
      | Inr y \<Rightarrow> (case map_items cur (index + 1) rest of Inl e \<Rightarrow> Inl e | Inr ys \<Rightarrow> Inr (y # ys)))"

text \<open>
  \<open>normalizeItems\<close>, on the \<open>items\<close> of the request body, any JSON value or \<open>undefined\<close>;
  the default \<open>[]\<close> of the parameter replaces \<open>undefined\<close>.
\<close>

definition normalizeItems :: "string \<Rightarrow> jsval \<Rightarrow> js_error + normalized_item list" where
  "normalizeItems PAYPAL_CURRENCY items =
     (case (if items = JUndefined then JArr [] else items) of
        JArr xs \<Rightarrow>
          if xs = [] then Inl (Error ''Missing cart items.'') else map_items PAYPAL_CURRENCY 0 xs
      | _ \<Rightarrow> Inl (Error ''Missing cart items.''))"

text \<open>
  \<^verbatim>\<open>items.reduce((sum, item) => sum + Number(item.unit_amount.value) * Number(item.quantity), 0)\<close>
\<close>

definition calculateOrderTotal :: "normalized_item list \<Rightarrow> string" where
  "calculateOrderTotal items =
     amountToString
       (foldl (\<lambda>sum item. js_add sum (js_mul (StringToNumber (val (unit_amount item)))
                                              (StringToNumber (quantity item))))
          (Fin 0) items)"

section \<open>The order request\<close>

record breakdown =
  item_total :: money

record order_amount = money +
  breakdown :: breakdown

record purchase_unit =
  amount :: order_amount
  items :: "normalized_item list"

record application_context =
  shipping_preference :: string
  user_action :: string
  brand_name :: string

record order_request =
  intent :: string
  purchase_units :: "purchase_unit list"
  application_context :: application_context

text \<open>The configuration read from the environment when the process starts.\<close>

record config =
  PAYPAL_CLIENT_ID :: "string option"
  PAYPAL_CLIENT_SECRET :: "string option"
  PAYPAL_BASE_URL :: string
  PAYPAL_CURRENCY :: string
  BRAND_NAME :: "string option"

text \<open>A string in a boolean position: the empty string is falsy, as is an unset variable.\<close>

definition truthy_env :: "string option \<Rightarrow> bool" where
  "truthy_env v = (case v of None \<Rightarrow> False | Some s \<Rightarrow> s \<noteq> [])"

definition orderPayload :: "config \<Rightarrow> normalized_item list \<Rightarrow> order_request" where
  "orderPayload cfg its =
     (let total = calculateOrderTotal its in
      \<lparr>intent = ''CAPTURE'',
       purchase_units =
         [\<lparr>amount = \<lparr>currency_code = PAYPAL_CURRENCY cfg, val = total,
                     breakdown = \<lparr>item_total = \<lparr>currency_code = PAYPAL_CURRENCY cfg, val = total\<rparr>\<rparr>\<rparr>,
           items = its\<rparr>],
       application_context =
         \<lparr>shipping_preference = ''NO_SHIPPING'', user_action = ''PAY_NOW'',
          brand_name = (if truthy_env (BRAND_NAME cfg) then the (BRAND_NAME cfg)
                        else ''Payment Sample Store'')\<rparr>\<rparr>)"

section \<open>Capture summary (\<open>extractCaptureSummary\<close>)\<close>

definition extractCaptureSummary :: "jsval \<Rightarrow> js_error + jsval" where
  "extractCaptureSummary payload =
     (let capturePayload = (if payload = JUndefined then JObj [] else payload) in
      case get_prop capturePayload ''purchase_units'' of
        Inl e \<Rightarrow> Inl e
      | Inr pus \<Rightarrow>
          (let purchaseUnit = (if nullish pus then JUndefined else opt_index0 pus);
               captures = opt (opt purchaseUnit ''payments'') ''captures'';
               capture = (if nullish captures then JUndefined else opt_index0 captures)
           in case get_prop capturePayload ''id'' of
                Inl e \<Rightarrow> Inl e
              | Inr oid \<Rightarrow>
                  Inr (JObj
                    [(''orderId'', oid),
                     (''captureId'', opt capture ''id''),
                     (''status'', opt capture ''status''),
                     (''payerEmail'', opt (opt capturePayload ''payer'') ''email_address''),
                     (''payerGivenName'', opt (opt (opt capturePayload ''payer'') ''name'') ''given_name''),
                     (''payerSurname'', opt (opt (opt capturePayload ''payer'') ''name'') ''surname''),
                     (''amount'', opt (opt capture ''amount'') ''value''),
                     (''currency'', opt (opt capture ''amount'') ''currency_code''),
                     (''items'', (let its = opt purchaseUnit ''items'' in if nullish its then JArr [] else its)),
                     (''createTime'', opt capture ''create_time''),
                     (''updateTime'', opt capture ''update_time'')])))"

section \<open>The gateway client\<close>

text \<open>
  An HTTP request to the gateway. The \<open>Authorization\<close> header is \<open>Basic\<close> with the
  credentials \<open>id:secret\<close> (their base64 encoding is not modelled) or \<open>Bearer\<close> with the
  access token.
\<close>

datatype authorization = Basic string | Bearer string

datatype request_body = NoBody | FormBody string | JsonBody order_request

record http_request =
  url :: string
  http_method :: string
  auth :: authorization
  body :: request_body

text \<open>What \<open>fetch\<close> resolves to; \<open>json\<close> is \<open>Inl\<close> when the body does not parse as JSON.\<close>

record fetch_response =
  ok :: bool
  status :: nat
  text_body :: string
  json :: "js_error + jsval"

datatype fetch_result = Rejects js_error | Resolves fetch_response

text \<open>
  The world outside the process: how the gateway answers a request, whether the two
  file-system calls of \<open>persistCapture\<close> fail, and the clock.
\<close>

record env =
  fetch :: "http_request \<Rightarrow> fetch_result"
  mkdir :: "js_error option"
  appendFile :: "js_error option"
  now :: string

text \<open>
  What the process has done: the requests sent to the gateway, the lines written to the
  console, and the records appended to \<open>transactions.jsonl\<close> (a record stands for its line
  of JSON text).
\<close>

record world =
  calls :: "http_request list"
  console :: "string list"
  transactions :: "jsval list"

definition generateAccessToken :: "env \<Rightarrow> config \<Rightarrow> world \<Rightarrow> (js_error + jsval) \<times> world" where
  "generateAccessToken ev cfg w =
     (if \<not> truthy_env (PAYPAL_CLIENT_ID cfg) \<or> \<not> truthy_env (PAYPAL_CLIENT_SECRET cfg)
      then (Inl (Error ''Missing PayPal credentials.''), w)
      else
        let req = \<lparr>url = PAYPAL_BASE_URL cfg @ ''/v1/oauth2/token'', http_method = ''POST'',
                   auth = Basic (the (PAYPAL_CLIENT_ID cfg) @ '':'' @ the (PAYPAL_CLIENT_SECRET cfg)),
                   body = FormBody ''grant_type=client_credentials''\<rparr>;
            w' = w\<lparr>calls := calls w @ [req]\<rparr>
        in case fetch ev req of
             Rejects e \<Rightarrow> (Inl e, w')
           | Resolves response \<Rightarrow>
               if \<not> ok response
               then (Inl (Error (''Failed to authenticate with PayPal: '' @ decimal (int (status response))
                                 @ '' '' @ text_body response)), w')
               else (case json response of
                       Inl e \<Rightarrow> (Inl e, w')
                     | Inr data \<Rightarrow> (get_prop data ''access_token'', w')))"

definition paypalRequest ::
  "env \<Rightarrow> config \<Rightarrow> string \<Rightarrow> string \<Rightarrow> request_body \<Rightarrow> world \<Rightarrow> (js_error + jsval) \<times> world" where
  "paypalRequest ev cfg endpoint method bdy w =
     (case generateAccessToken ev cfg w of
        (Inl e, w1) \<Rightarrow> (Inl e, w1)
      | (Inr accessToken, w1) \<Rightarrow>
          (case to_string accessToken of
             Inl e \<Rightarrow> (Inl e, w1)
           | Inr token \<Rightarrow>
               let req = \<lparr>url = PAYPAL_BASE_URL cfg @ endpoint, http_method = method,
                          auth = Bearer token, body = bdy\<rparr>;
                   w2 = w1\<lparr>calls := calls w1 @ [req]\<rparr>
               in case fetch ev req of
                    Rejects e \<Rightarrow> (Inl e, w2)
                  | Resolves response \<Rightarrow>
                      let responseBody = (case json response of Inl e \<Rightarrow> JObj [] | Inr v \<Rightarrow> v) in
                      if \<not> ok response
                      then (case (let m = opt responseBody ''message'' in
                                  if truthy m then to_string m else Inr ''PayPal API error.'') of
                              Inl e \<Rightarrow> (Inl e, w2)
                            | Inr msg \<Rightarrow>
                                (Inl \<lparr>message = msg, err_status = None, paypal = Some responseBody\<rparr>, w2))
                      else (Inr responseBody, w2)))"

section \<open>Persisting a capture (\<open>persistCapture\<close>)\<close>

definition persistCapture :: "env \<Rightarrow> jsval \<Rightarrow> world \<Rightarrow> world" where
  "persistCapture ev capturePayload w =
     (let failed = w\<lparr>console := console w @ [''Failed to persist capture record'']\<rparr> in
      case mkdir ev of
        Some e \<Rightarrow> failed
      | None \<Rightarrow>
          (case extractCaptureSummary capturePayload of
             Inl e \<Rightarrow> failed
           | Inr summary \<Rightarrow>
               (let entry = JObj ((case summary of JObj kvs \<Rightarrow> kvs | _ \<Rightarrow> [])
                                    @ [(''loggedAt'', JStr (now ev)), (''raw'', capturePayload)])
                in case appendFile ev of
                     Some e \<Rightarrow> failed
                   | None \<Rightarrow> w\<lparr>transactions := transactions w @ [entry]\<rparr>)))"

section \<open>The HTTP handlers\<close>

record http_response =
  status_code :: nat
  json_body :: jsval

text \<open>The error middleware, which every \<open>next(error)\<close> reaches.\<close>

definition error_middleware :: "js_error \<Rightarrow> world \<Rightarrow> http_response \<times> world" where
  "error_middleware err w =
     (\<lparr>status_code = (case err_status err of Some s \<Rightarrow> if s = 0 then 500 else s | None \<Rightarrow> 500),
       json_body = JObj ([(''message'', JStr (if message err = [] then ''Unexpected server error.''
                                               else message err))]
                         @ (case paypal err of Some p \<Rightarrow> if truthy p then [(''paypal'', p)] else []
                            | None \<Rightarrow> []))\<rparr>,
      w\<lparr>console := console w @ [''PayPal integration error:'']\<rparr>)"

text \<open>\<open>POST /api/orders\<close>, on \<open>req.body?.items\<close>, a JSON value or \<open>undefined\<close>.\<close>

definition create_order :: "env \<Rightarrow> config \<Rightarrow> jsval \<Rightarrow> world \<Rightarrow> http_response \<times> world" where
  "create_order ev cfg req_items w =
     (case normalizeItems (PAYPAL_CURRENCY cfg) req_items of
        Inl error \<Rightarrow> error_middleware error w
      | Inr its \<Rightarrow>
          (case paypalRequest ev cfg ''/v2/checkout/orders'' ''POST'' (JsonBody (orderPayload cfg its)) w of
             (Inl error, w') \<Rightarrow> error_middleware error w'
           | (Inr order, w') \<Rightarrow>
               (case get_prop order ''id'' of
                  Inl error \<Rightarrow> error_middleware error w'
                | Inr i \<Rightarrow> (\<lparr>status_code = 201, json_body = JObj [(''id'', i)]\<rparr>, w'))))"

text \<open>\<open>POST /api/orders/:orderId/capture\<close>.\<close>

definition capture_order :: "env \<Rightarrow> config \<Rightarrow> string \<Rightarrow> world \<Rightarrow> http_response \<times> world" where
  "capture_order ev cfg orderId w =
     (case paypalRequest ev cfg (''/v2/checkout/orders/'' @ orderId @ ''/capture'') ''POST'' NoBody w of
        (Inl error, w') \<Rightarrow> error_middleware error w'
      | (Inr capture, w') \<Rightarrow> (\<lparr>status_code = 200, json_body = capture\<rparr>, persistCapture ev capture w'))"

section \<open>Well-formed carts and amounts\<close>

text \<open>The Numbers that \<open>normalizeItems\<close> names \<open>price\<close> and \<open>quantity\<close>.\<close>

definition price_of :: "jsval \<Rightarrow> js_error + jsnum" where
  "price_of item = ToNumber (coalesce (opt item ''price'') (JNum (Fin 0)))"

definition quantity_of :: "jsval \<Rightarrow> js_error + jsnum" where
  "quantity_of item = ToNumber (coalesce (opt item ''quantity'') (JNum (Fin 1)))"

text \<open>
  A valid cart item, in the words of the specification: a name that is a string and is
  not empty once trimmed, a finite price above 0, and a quantity that is a positive
  integer (an absent quantity stands for 1).
\<close>

definition valid_item :: "jsval \<Rightarrow> bool" where
  "valid_item item =
     ((case opt item ''name'' of JStr n \<Rightarrow> trim n \<noteq> [] | _ \<Rightarrow> False)
      \<and> (case price_of item of Inr (Fin p) \<Rightarrow> 0 < p | _ \<Rightarrow> False)
      \<and> (case quantity_of item of Inr (Fin q) \<Rightarrow> 0 < q \<and> of_int \<lfloor>q\<rfloor> = q | _ \<Rightarrow> False))"

text \<open>An item whose price is not a finite number (NaN, infinite, not a number at all) or is at most 0.\<close>

definition bad_price :: "jsval \<Rightarrow> bool" where
  "bad_price item = (case price_of item of Inr (Fin p) \<Rightarrow> p \<le> 0 | _ \<Rightarrow> True)"

text \<open>A malformed cart: missing, not a list, empty, or holding an item that is not valid.\<close>

definition malformed_cart :: "jsval \<Rightarrow> bool" where
  "malformed_cart cart =
     (case cart of JArr xs \<Rightarrow> xs = [] \<or> list_ex (\<lambda>x. \<not> valid_item x) xs | _ \<Rightarrow> True)"

text \<open>The three messages that name the item at \<open>index\<close>.\<close>

definition missing_name_message :: "nat \<Rightarrow> string" where
  "missing_name_message index = ''Item #'' @ decimal (int index + 1) @ '' is missing a name.''"

definition invalid_price_message :: "string \<Rightarrow> string" where
  "invalid_price_message nm = ''Item '' @ [CHR 0x22] @ nm @ [CHR 0x22] @ '' has an invalid price.''"

definition invalid_quantity_message :: "string \<Rightarrow> string" where
  "invalid_quantity_message nm = ''Item '' @ [CHR 0x22] @ nm @ [CHR 0x22] @ '' has an invalid quantity.''"

text \<open>The format \<^verbatim>\<open>/^\d+\.\d{2}$/\<close> of an amount: digits, a point, two digits.\<close>

definition is_digit :: "char \<Rightarrow> bool" where
  "is_digit c = (c \<in> set ''0123456789'')"

definition amount_format :: "string \<Rightarrow> bool" where
  "amount_format s =
     (case rev s of
        d2 # d1 # dot # rest \<Rightarrow>
          is_digit d2 \<and> is_digit d1 \<and> dot = CHR ''.'' \<and> rest \<noteq> [] \<and> list_all is_digit rest
      | _ \<Rightarrow> False)"

section \<open>Example inputs\<close>

definition example_config :: config where
  "example_config =
     \<lparr>PAYPAL_CLIENT_ID = Some ''client'', PAYPAL_CLIENT_SECRET = Some ''secret'',
      PAYPAL_BASE_URL = ''https://api-m.sandbox.paypal.com'', PAYPAL_CURRENCY = ''USD'',
      BRAND_NAME = None\<rparr>"

text \<open>
  A capture response of the gateway:
  \<^verbatim>\<open>{id:"O1", purchase_units:[{payments:{captures:[{id:"C1", status:"COMPLETED",
     amount:{value:"39.00", currency_code:"USD"}}]}}]}\<close>
\<close>

definition example_capture_entry :: jsval where
  "example_capture_entry =
     JObj [(''id'', JStr ''C1''), (''status'', JStr ''COMPLETED''),
           (''amount'', JObj [(''value'', JStr ''39.00''), (''currency_code'', JStr ''USD'')])]"

definition example_unit :: jsval where
  "example_unit = JObj [(''payments'', JObj [(''captures'', JArr [example_capture_entry])])]"

definition example_capture :: jsval where
  "example_capture = JObj [(''id'', JStr ''O1''), (''purchase_units'', JArr [example_unit])]"

text \<open>The same response with a second capture and a second purchase unit after the first.\<close>

definition example_unit_many :: jsval where
  "example_unit_many =
     JObj [(''payments'',
            JObj [(''captures'',
                   JArr [example_capture_entry,
                         JObj [(''id'', JStr ''C2''), (''status'', JStr ''DECLINED'')]])])]"

definition example_capture_many :: jsval where
  "example_capture_many =
     JObj [(''id'', JStr ''O1''),
           (''purchase_units'',
            JArr [example_unit_many,
                  JObj [(''items'', JArr [JStr ''other'']),
                        (''payments'', JObj [(''captures'', JArr [JObj [(''id'', JStr ''C3'')]])])]])]"

text \<open>
  A response whose first purchase unit has no capture and whose second has one:
  \<^verbatim>\<open>{id:"O2", purchase_units:[{items:["first"]}, {payments:{captures:[{id:"C3"}]}}]}\<close>,
  and the same response without the second unit.
\<close>

definition example_unit_no_capture :: jsval where
  "example_unit_no_capture = JObj [(''items'', JArr [JStr ''first''])]"

definition example_capture_second_unit :: jsval where
  "example_capture_second_unit =
     JObj [(''id'', JStr ''O2''),
           (''purchase_units'',
            JArr [example_unit_no_capture,
                  JObj [(''payments'', JObj [(''captures'', JArr [JObj [(''id'', JStr ''C3'')]])])]])]"

definition example_capture_no_capture :: jsval where
  "example_capture_no_capture =
     JObj [(''id'', JStr ''O2''), (''purchase_units'', JArr [example_unit_no_capture])]"

text \<open>A gateway that grants a token, creates the order \<open>ORDER1\<close> and captures it.\<close>

definition example_fetch :: "http_request \<Rightarrow> fetch_result" where
  "example_fetch req =
     (if url req = ''https://api-m.sandbox.paypal.com/v1/oauth2/token''
      then Resolves \<lparr>ok = True, status = 200, text_body = [],
                     json = Inr (JObj [(''access_token'', JStr ''A21AA'')])\<rparr>
      else if url req = ''https://api-m.sandbox.paypal.com/v2/checkout/orders''
      then Resolves \<lparr>ok = True, status = 201, text_body = [],
                     json = Inr (JObj [(''id'', JStr ''ORDER1'')])\<rparr>
      else Resolves \<lparr>ok = True, status = 201, text_body = [], json = Inr example_capture\<rparr>)"

text \<open>The same gateway with a data directory that cannot be created.\<close>

definition example_env_disk_failure :: env where
  "example_env_disk_failure =
     \<lparr>fetch = example_fetch, mkdir = Some (Error ''EACCES: permission denied, mkdir''),
      appendFile = None, now = ''2024-01-01T00:00:00.000Z''\<rparr>"

definition empty_world :: world where
  "empty_world = \<lparr>calls = [], console = [], transactions = []\<rparr>"

text \<open>Two valid items, the second without an id.\<close>

definition example_cart :: "jsval list" where
  "example_cart =
     [JObj [(''id'', JStr ''startup''), (''name'', JStr ''Startup Plan (Yearly)''),
            (''price'', JNum (Fin 39)), (''quantity'', JNum (Fin 1))],
      JObj [(''name'', JStr '' Email credits ''), (''price'', JNum (Fin 10)),
            (''quantity'', JNum (Fin 2))]]"

text \<open>A valid item followed by an item whose price is negative.\<close>

definition example_cart_bad_price :: "jsval list" where
  "example_cart_bad_price =
     [JObj [(''name'', JStr ''A''), (''price'', JNum (Fin 10)), (''quantity'', JNum (Fin 2))],
      JObj [(''name'', JStr ''B''), (''price'', JNum (Fin (- 1))), (''quantity'', JNum (Fin 1))]]"

text \<open>The cart \<^verbatim>\<open>[{name:5, price:-1}]\<close>: a name that is a number, and a negative price.\<close>

definition example_cart_name_number :: "jsval list" where
  "example_cart_name_number = [JObj [(''name'', JNum (Fin 5)), (''price'', JNum (Fin (- 1)))]]"

text \<open>
  The cart \<^verbatim>\<open>[{name:"A",price:10,quantity:2},{name:"B",price:5.005,quantity:1}]\<close>; the
  Number that the literal \<open>5.005\<close> denotes is \<open>5635129033747333 / 2\<^sup>5\<^sup>0\<close>.
\<close>

definition example_cart_rounding :: "jsval list" where
  "example_cart_rounding =
     [JObj [(''name'', JStr ''A''), (''price'', JNum (Fin 10)), (''quantity'', JNum (Fin 2))],
      JObj [(''name'', JStr ''B''), (''price'', JNum (Fin (5635129033747333 / 1125899906842624))),
            (''quantity'', JNum (Fin 1))]]"

text \<open>What \<open>normalizeItems\<close> makes of it.\<close>

definition example_items_rounding :: "normalized_item list" where
  "example_items_rounding =
     [\<lparr>reference_id = JStr ''ITEM-1'', name = ''A'', quantity = ''2'', category = JStr ''DIGITAL_GOODS'',
       unit_amount = \<lparr>currency_code = ''USD'', val = ''10.00''\<rparr>\<rparr>,
      \<lparr>reference_id = JStr ''ITEM-2'', name = ''B'', quantity = ''1'', category = JStr ''DIGITAL_GOODS'',
       unit_amount = \<lparr>currency_code = ''USD'', val = ''5.01''\<rparr>\<rparr>]"

text \<open>Carts of one item with a very large price: \<open>10\<^sup>2\<^sup>2\<close>, and the Number that \<open>1e307\<close> denotes.\<close>

definition example_cart_1e22 :: "jsval list" where
  "example_cart_1e22 =
     [JObj [(''name'', JStr ''A''), (''price'', JNum (Fin (10 ^ 22))), (''quantity'', JNum (Fin 1))]]"

definition example_cart_1e307 :: "jsval list" where
  "example_cart_1e307 =
     [JObj [(''name'', JStr ''A''), (''price'', JNum (StringToNumber ''1e307'')),
            (''quantity'', JNum (Fin 1))]]"

text \<open>
  The cart \<^verbatim>\<open>[{name:"A", price:2e20, quantity:6}]\<close>, whose total is \<open>1.2 \<times> 10\<^sup>2\<^sup>1\<close>, and what
  \<open>normalizeItems\<close> makes of it.
\<close>

definition example_cart_2e20 :: "jsval list" where
  "example_cart_2e20 =
     [JObj [(''name'', JStr ''A''), (''price'', JNum (Fin (2 * 10 ^ 20))), (''quantity'', JNum (Fin 6))]]"

definition example_items_2e20 :: "normalized_item list" where
  "example_items_2e20 =
     [\<lparr>reference_id = JStr ''ITEM-1'', name = ''A'', quantity = ''6'', category = JStr ''DIGITAL_GOODS'',
       unit_amount = \<lparr>currency_code = ''USD'', val = ''200000000000000000000.00''\<rparr>\<rparr>]"

section \<open>Properties\<close>

subsection \<open>Rounding to binary64\<close>

lemma ndigits_pos: "1 < b \<Longrightarrow> 0 < n \<Longrightarrow> ndigits b n = 1 + ndigits b (n div b)"
  by (subst ndigits.simps) simp

lemma ndigits_nonpos: "n \<le> 0 \<Longrightarrow> ndigits b n = 0"
  by (subst ndigits.simps) simp

lemma ndigits_bounds:
  "1 < b \<Longrightarrow> 0 < n \<Longrightarrow> 0 < ndigits b n \<and> b ^ nat (ndigits b n - 1) \<le> n \<and> n < b ^ nat (ndigits b n)"
proof (induction b n rule: ndigits.induct)
  case (1 b n)
  show ?case
  proof (cases "n div b = 0")
    case True
    then have nb: "n < b" using 1(2,3)
      by (simp add: zdiv_eq_0_iff)
    have "ndigits b n = 1"
      using True 1(2,3) by (simp add: ndigits_pos ndigits_nonpos)
    then show ?thesis using nb 1(3) by simp
  next
    case False
    then have pos: "0 < n div b" using 1(2,3)
      by (simp add: pos_imp_zdiv_pos_iff zdiv_eq_0_iff)
    from 1(1)[OF _ 1(2) pos] 1(2,3)
    have ih: "0 < ndigits b (n div b)" "b ^ nat (ndigits b (n div b) - 1) \<le> n div b"
      "n div b < b ^ nat (ndigits b (n div b))" by auto
    let ?d = "ndigits b (n div b)"
    have d: "ndigits b n = 1 + ?d" using 1(2,3) by (simp add: ndigits_pos)
    have nat1: "nat (1 + ?d - 1) = Suc (nat (?d - 1))" using ih(1) by simp
    have nat2: "nat (1 + ?d) = Suc (nat ?d)" using ih(1) by simp
    have lo: "b * b ^ nat (?d - 1) \<le> n"
    proof -
      have "b * b ^ nat (?d - 1) \<le> b * (n div b)" using ih(2) 1(2) by simp
      also have "\<dots> \<le> n"
      proof -
        have "n = b * (n div b) + n mod b" by simp
        moreover have "0 \<le> n mod b" using 1(2) by simp
        ultimately show ?thesis by linarith
      qed
      finally show ?thesis .
    qed
    have hi: "n < b * b ^ nat ?d"
    proof -
      have "n div b + 1 \<le> b ^ nat ?d" using ih(3) by simp
      then have "b * (n div b + 1) \<le> b * b ^ nat ?d" using 1(2) by simp
      moreover have "n < b * (n div b + 1)"
      proof -
        have "n = b * (n div b) + n mod b" by simp
        moreover have "n mod b < b" using 1(2) by simp
        ultimately have "n < b * (n div b) + b" by linarith
        then show ?thesis by (simp add: distrib_left)
      qed
      ultimately show ?thesis by linarith
    qed
    show ?thesis unfolding d nat1 nat2 using ih(1) lo hi by simp
  qed
qed

lemma ilog_bounds:
  assumes b: "1 < b" and x: "0 < x"
  shows "of_int b powi (ilog b x) \<le> x \<and> x < of_int b powi (ilog b x + 1)"
proof (cases "1 \<le> x")
  case True
  let ?n = "\<lfloor>x\<rfloor>"
  let ?d = "ndigits b ?n"
  have n: "0 < ?n" using True by linarith
  from ndigits_bounds[OF b n]
  have d: "0 < ?d" "b ^ nat (?d - 1) \<le> ?n" "?n < b ^ nat ?d" by auto
  have il: "ilog b x = ?d - 1" using True by (simp add: ilog_def)
  have "(of_int b :: rat) powi (?d - 1) = of_int (b ^ nat (?d - 1))"
    using d(1) by (simp add: power_int_def)
  also have "\<dots> \<le> of_int ?n" using d(2) by (simp only: of_int_le_iff)
  also have "\<dots> \<le> x" by simp
  finally have lo: "of_int b powi (?d - 1) \<le> x" .
  have "?n + 1 \<le> b ^ nat ?d" using d(3) by simp
  then have "(of_int (?n + 1) :: rat) \<le> of_int (b ^ nat ?d)" by (simp only: of_int_le_iff)
  moreover have "x < of_int (?n + 1)" by linarith
  moreover have "(of_int b :: rat) powi ?d = of_int (b ^ nat ?d)"
    using d(1) by (simp add: power_int_def)
  ultimately have hi: "x < of_int b powi ?d" by simp
  show ?thesis using lo hi by (simp add: il)
next
  case False
  define y where "y = 1 / x"
  define n where "n = \<lceil>y\<rceil> - 1"
  define d where "d = ndigits b n"
  have y: "1 < y" using False x by (simp add: y_def)
  have n: "0 < n" using y unfolding n_def by linarith
  have ny: "of_int n < y" "y \<le> of_int (n + 1)" unfolding n_def by linarith+
  from ndigits_bounds[OF b n]
  have d: "0 < d" "b ^ nat (d - 1) \<le> n" "n < b ^ nat d" by (auto simp: d_def)
  have il: "ilog b x = - d" using False by (simp add: ilog_def d_def n_def y_def)
  have bp: "(0::rat) < of_int b" using b by simp
  have xy: "x = 1 / y" by (simp add: y_def)
  have yp: "0 < y" using y by simp
  have "n + 1 \<le> b ^ nat d" using d(3) by simp
  then have "(of_int (n + 1) :: rat) \<le> of_int (b ^ nat d)" by (simp only: of_int_le_iff)
  then have "(of_int (n + 1) :: rat) \<le> of_int b ^ nat d" by simp
  with ny(2) have yb: "y \<le> of_int b ^ nat d" by (rule order_trans)
  have bd: "(0::rat) < of_int b ^ nat d" using bp by simp
  have "1 / of_int b ^ nat d \<le> 1 / y" using yb yp bd by (simp add: frac_le)
  moreover have "(of_int b :: rat) powi (- d) = 1 / of_int b ^ nat d"
    using d(1) by (simp add: power_int_def field_simps)
  ultimately have lo: "of_int b powi (- d) \<le> x" by (simp add: xy)
  have "(of_int (b ^ nat (d - 1)) :: rat) \<le> of_int n" using d(2) by (simp only: of_int_le_iff)
  then have "(of_int b :: rat) ^ nat (d - 1) \<le> of_int n" by simp
  with ny(1) have by1: "of_int b ^ nat (d - 1) < y" by linarith
  have bd1: "(0::rat) < of_int b ^ nat (d - 1)" using bp by simp
  have "1 / y < 1 / of_int b ^ nat (d - 1)" using by1 bd1 by (simp add: frac_less2)
  moreover have "(of_int b :: rat) powi (- d + 1) = 1 / of_int b ^ nat (d - 1)"
  proof -
    have "- d + 1 = - (d - 1)" by simp
    moreover have "(of_int b :: rat) powi (- (d - 1)) = 1 / of_int b ^ nat (d - 1)"
      using d(1) by (simp add: power_int_minus_divide power_int_def power_inverse field_simps)
    ultimately show ?thesis by simp
  qed
  ultimately have hi: "x < of_int b powi (- d + 1)" by (simp add: xy)
  show ?thesis using lo hi by (simp add: il)
qed

lemma ilog_unique:
  assumes b: "1 < b" and lo: "of_int b powi e \<le> x" and hi: "x < of_int b powi (e + 1)"
  shows "ilog b x = e"
proof -
  have b1: "(1::rat) < of_int b" using b by simp
  have "(0::rat) < of_int b powi e" using b1 by (simp add: power_int_def)
  then have x: "0 < x" using lo by linarith
  from ilog_bounds[OF b x]
  have i: "of_int b powi (ilog b x) \<le> x" "x < of_int b powi (ilog b x + 1)" by auto
  have "(of_int b :: rat) powi e < of_int b powi (ilog b x + 1)" using lo i(2) by linarith
  then have 1: "e < ilog b x + 1"
    using b1 by (metis linorder_not_less power_int_increasing order_less_imp_le)
  have "(of_int b :: rat) powi (ilog b x) < of_int b powi (e + 1)" using hi i(1) by linarith
  then have 2: "ilog b x < e + 1"
    using b1 by (metis linorder_not_less power_int_increasing order_less_imp_le)
  show ?thesis using 1 2 by simp
qed

lemma round_half_even_near:
  assumes "\<bar>x - of_int m\<bar> < 1 / 2"
  shows "round_half_even x = m"
proof -
  have "of_int (m - 1) \<le> x" "x < of_int (m + 1)"
    using assms by (simp_all only: of_int_diff of_int_add of_int_1)
  then have "m - 1 \<le> \<lfloor>x\<rfloor>" "\<lfloor>x\<rfloor> < m + 1" by (simp_all only: le_floor_iff floor_less_iff)
  then have "\<lfloor>x\<rfloor> = m \<or> \<lfloor>x\<rfloor> = m - 1" by linarith
  then show ?thesis
  proof
    assume f: "\<lfloor>x\<rfloor> = m"
    have "x - of_int m < 1 / 2" using assms by linarith
    then show ?thesis using f by (simp add: round_half_even_def Let_def)
  next
    assume f: "\<lfloor>x\<rfloor> = m - 1"
    have "1 / 2 < x - (of_int m - 1)" using assms by linarith
    then have "1 / 2 < x - of_int (m - 1)" by (simp only: of_int_diff of_int_1)
    then show ?thesis using f by (simp add: round_half_even_def Let_def)
  qed
qed

lemma round_half_even_int [simp]: "round_half_even (of_int m) = m"
  by (rule round_half_even_near) simp

lemma round_half_even_ge: "of_int k \<le> x \<Longrightarrow> k \<le> round_half_even x"
proof -
  assume "of_int k \<le> x"
  then have "k \<le> \<lfloor>x\<rfloor>" by (simp only: le_floor_iff)
  then show ?thesis by (simp add: round_half_even_def Let_def)
qed

lemma fl_eqI:
  assumes lo: "2 powi e \<le> \<bar>r\<bar>" and hi: "\<bar>r\<bar> < 2 powi (e + 1)"
    and e: "- 1022 \<le> e"
    and m: "\<bar>r / 2 powi (e - 52) - of_int m\<bar> < 1 / 2"
    and v: "\<bar>of_int m * 2 powi (e - 52)\<bar> < (2 :: rat) ^ 1024"
  shows "fl r = Fin (of_int m * 2 powi (e - 52))"
proof -
  have p: "(0::rat) < 2 powi e" by (simp add: power_int_def)
  have r0: "r \<noteq> 0"
  proof
    assume "r = 0"
    then have "2 powi e \<le> (0::rat)" using lo by simp
    with p show False by linarith
  qed
  have "ilog 2 \<bar>r\<bar> = e" using lo hi by (intro ilog_unique) simp_all
  then have em: "max (ilog 2 \<bar>r\<bar>) (- 1022) = e" using e by simp
  have rm: "round_half_even (r / 2 powi (e - 52)) = m" using m by (rule round_half_even_near)
  show ?thesis using r0 v unfolding fl_def Let_def em rm by simp
qed

lemma fl_exact:
  assumes r: "r = of_int m * 2 powi k" and m: "\<bar>m\<bar> < 2 ^ 53" and k: "- 1074 \<le> k"
    and v: "\<bar>r\<bar> < 2 ^ 1024"
  shows "fl r = Fin r"
proof (cases "r = 0")
  case True
  then show ?thesis by (simp add: fl_def)
next
  case False
  define e where "e = ilog 2 \<bar>r\<bar>"
  define e' where "e' = max e (- 1022)"
  have rp: "0 < \<bar>r\<bar>" using False by simp
  from ilog_bounds[of 2 "\<bar>r\<bar>"] rp
  have eb: "2 powi e \<le> \<bar>r\<bar>" "\<bar>r\<bar> < 2 powi (e + 1)" by (simp_all add: e_def)
  have "\<bar>r\<bar> = of_int \<bar>m\<bar> * 2 powi k" by (simp add: r abs_mult power_int_abs)
  moreover have "(of_int \<bar>m\<bar> :: rat) < 2 ^ 53" using m by (metis of_int_less_iff of_int_numeral of_int_power)
  ultimately have "\<bar>r\<bar> < 2 ^ 53 * 2 powi k"
    by (simp add: mult_strict_right_mono power_int_def)
  also have "(2 ^ 53 * 2 powi k :: rat) = 2 powi (53 + k)"
    by (simp add: power_int_add)
  finally have "(2::rat) powi e < 2 powi (53 + k)" using eb(1) by linarith
  then have ek: "e < 53 + k"
    by (metis linorder_not_less power_int_increasing one_le_numeral)
  have j: "0 \<le> k - e' + 52" using ek k by (simp add: e'_def)
  define j where "j = nat (k - e' + 52)"
  have "r / 2 powi (e' - 52) = of_int m * (2 powi k / 2 powi (e' - 52))" by (simp add: r)
  also have "(2 powi k / 2 powi (e' - 52) :: rat) = 2 powi (k - (e' - 52))"
    by (simp add: power_int_diff)
  also have "k - (e' - 52) = int j" using j by (simp add: j_def)
  finally have "r / 2 powi (e' - 52) = of_int (m * 2 ^ j)" by simp
  then have rh: "round_half_even (r / 2 powi (e' - 52)) = m * 2 ^ j"
    by (simp only: round_half_even_int)
  have "of_int (m * 2 ^ j) * 2 powi (e' - 52) = r"
    using \<open>r / 2 powi (e' - 52) = of_int (m * 2 ^ j)\<close> by (simp add: field_simps)
  then show ?thesis
    using False v unfolding fl_def Let_def e_def[symmetric] e'_def[symmetric] rh by simp
qed

lemma fl_of_int: "\<bar>n\<bar> < 2 ^ 53 \<Longrightarrow> fl (of_int n) = Fin (of_int n)"
proof -
  assume n: "\<bar>n\<bar> < 2 ^ 53"
  have "(of_int \<bar>n\<bar> :: rat) < 2 ^ 53" using n by (metis of_int_less_iff of_int_numeral of_int_power)
  then have "\<bar>of_int n :: rat\<bar> < 2 ^ 1024" by simp
  then show ?thesis using fl_exact[of "of_int n" n 0] n by simp
qed

lemma fl_numeral [simp]: "(numeral n :: int) < 2 ^ 53 \<Longrightarrow> fl (numeral n) = Fin (numeral n)"
  using fl_of_int[of "numeral n"] by simp

lemma fl_one [simp]: "fl 1 = Fin 1"
  using fl_of_int[of 1] by simp

lemma fl_zero [simp]: "fl 0 = Fin 0"
  by (simp add: fl_def)

lemma fl_overflow:
  assumes "2 ^ 1024 \<le> r"
  shows "fl r = PosInf"
proof -
  define e where "e = ilog 2 \<bar>r\<bar>"
  have "(0::rat) < 2 ^ 1024" by simp
  with assms have rp: "0 < r" by linarith
  then have ar: "\<bar>r\<bar> = r" by simp
  from ilog_bounds[of 2 "\<bar>r\<bar>"] rp
  have eb: "2 powi e \<le> r" "r < 2 powi (e + 1)" by (simp_all add: e_def)
  have "(2::rat) powi 1024 < 2 powi (e + 1)" using assms eb(2) by simp
  then have e: "1024 \<le> e"
    by (smt (verit) power_int_increasing one_le_numeral linorder_not_less)
  then have em: "max e (- 1022) = e" by simp
  define q :: rat where "q = 2 powi (e - 52)"
  have qp: "0 < q" by (simp add: q_def power_int_def)
  have "(2::rat) powi e = 2 powi 52 * q"
    unfolding q_def using power_int_add[of "2::rat" 52 "e - 52"] by simp
  then have "2 powi 52 * q \<le> r" using eb(1) by simp
  then have "(2::rat) ^ 52 \<le> r / q" using qp by (simp add: field_simps)
  then have "of_int (2 ^ 52) \<le> r / q" by simp
  then have "2 ^ 52 \<le> round_half_even (r / q)" by (rule round_half_even_ge)
  then have "(of_int (2 ^ 52) :: rat) \<le> of_int (round_half_even (r / q))" by (simp only: of_int_le_iff)
  then have "2 ^ 52 * q \<le> of_int (round_half_even (r / q)) * q" using qp by simp
  moreover have "(2::rat) ^ 1024 \<le> 2 ^ 52 * q"
  proof -
    have "(2::rat) powi 1024 \<le> 2 powi e" using e by (intro power_int_increasing) simp_all
    then show ?thesis using \<open>(2::rat) powi e = 2 powi 52 * q\<close> by simp
  qed
  ultimately have "2 ^ 1024 \<le> \<bar>of_int (round_half_even (r / q)) * q\<bar>" by linarith
  then show ?thesis using rp unfolding fl_def Let_def ar e_def[symmetric, unfolded ar] em q_def[symmetric]
    by simp
qed

lemma round_half_even_tie:
  "x = of_int f + 1 / 2 \<Longrightarrow> round_half_even x = (if even f then f else f + 1)"
proof -
  assume x: "x = of_int f + 1 / 2"
  have "\<lfloor>x\<rfloor> = f" unfolding x by (simp add: floor_unique)
  then show ?thesis by (simp add: round_half_even_def Let_def x)
qed

lemma fl_eq_tieI:
  assumes lo: "2 powi e \<le> \<bar>r\<bar>" and hi: "\<bar>r\<bar> < 2 powi (e + 1)"
    and e: "- 1022 \<le> e"
    and m: "r / 2 powi (e - 52) = of_int f + 1 / 2"
    and v: "\<bar>of_int (if even f then f else f + 1) * 2 powi (e - 52)\<bar> < (2 :: rat) ^ 1024"
  shows "fl r = Fin (of_int (if even f then f else f + 1) * 2 powi (e - 52))"
proof -
  have p: "(0::rat) < 2 powi e" by (simp add: power_int_def)
  have r0: "r \<noteq> 0"
  proof
    assume "r = 0"
    then have "2 powi e \<le> (0::rat)" using lo by simp
    with p show False by linarith
  qed
  have "ilog 2 \<bar>r\<bar> = e" using lo hi by (intro ilog_unique) simp_all
  then have em: "max (ilog 2 \<bar>r\<bar>) (- 1022) = e" using e by simp
  have rm: "round_half_even (r / 2 powi (e - 52)) = (if even f then f else f + 1)"
    using m by (rule round_half_even_tie)
  show ?thesis using r0 v unfolding fl_def Let_def em rm by simp
qed

lemma round_half_even_le: "x \<le> of_int k \<Longrightarrow> round_half_even x \<le> k"
proof -
  assume x: "x \<le> of_int k"
  have f: "\<lfloor>x\<rfloor> \<le> k" using x by (simp add: floor_le_iff)
  show ?thesis
  proof (cases "\<lfloor>x\<rfloor> = k")
    case True
    then have "x - of_int \<lfloor>x\<rfloor> \<le> 0" using x by simp
    then show ?thesis using True by (simp add: round_half_even_def Let_def)
  next
    case False
    then have "\<lfloor>x\<rfloor> + 1 \<le> k" using f by simp
    then show ?thesis using f by (simp add: round_half_even_def Let_def)
  qed
qed

lemma fl_nonneg_bound:
  assumes r: "0 \<le> r" and hi: "r < 2 ^ k" and k: "k \<le> 1023"
  shows "\<exists>v. fl r = Fin v \<and> 0 \<le> v \<and> v \<le> 2 ^ k"
proof (cases "r = 0")
  case True
  then show ?thesis by simp
next
  case False
  then have rp: "0 < r" using r by simp
  then have ar: "\<bar>r\<bar> = r" by simp
  define e where "e = ilog 2 r"
  define e' where "e' = max e (- 1022)"
  define q :: rat where "q = 2 powi (e' - 52)"
  define m where "m = round_half_even (r / q)"
  from ilog_bounds[of 2 r] rp have eb: "2 powi e \<le> r" "r < 2 powi (e + 1)" by (simp_all add: e_def)
  have qp: "0 < q" by (simp add: q_def power_int_def)
  have "(2::rat) powi e < 2 powi int k" using eb(1) hi by simp
  then have ek: "e < int k" by (metis linorder_not_less power_int_increasing one_le_numeral)
  have e'k: "e' + 1 \<le> int k" using ek by (simp add: e'_def)
  have ee': "e \<le> e'" by (simp add: e'_def)
  have "(2::rat) powi (e + 1) \<le> 2 powi (e' + 1)" using ee' by (intro power_int_increasing) simp_all
  also have "(2::rat) powi (e' + 1) = 2 powi 53 * q"
    unfolding q_def using power_int_add[of "2::rat" 53 "e' - 52"] by (simp add: add.commute)
  finally have "r < 2 powi 53 * q" using eb(2) by linarith
  then have "r / q < 2 ^ 53" using qp by (simp add: field_simps)
  then have "r / q \<le> of_int (2 ^ 53)" by simp
  then have m53: "m \<le> 2 ^ 53" unfolding m_def by (rule round_half_even_le)
  have "of_int 0 \<le> r / q" using rp qp by simp
  then have m0: "0 \<le> m" unfolding m_def by (rule round_half_even_ge)
  have v0: "0 \<le> of_int m * q" using m0 qp by simp
  have "(of_int m :: rat) \<le> of_int (2 ^ 53)" using m53 by (simp only: of_int_le_iff)
  then have "of_int m * q \<le> 2 ^ 53 * q" using qp by simp
  also have "(2 ^ 53 * q :: rat) = 2 powi (e' + 1)"
    using \<open>(2::rat) powi (e' + 1) = 2 powi 53 * q\<close> by simp
  also have "(2::rat) powi (e' + 1) \<le> 2 powi int k" using e'k by (intro power_int_increasing) simp_all
  finally have vk: "of_int m * q \<le> 2 ^ k" by simp
  have "(2::rat) ^ k \<le> 2 ^ 1023" using k by (intro power_increasing) simp_all
  also have "(2::rat) ^ 1023 < 2 ^ 1024" by simp
  finally have "\<bar>of_int m * q\<bar> < 2 ^ 1024" using vk v0 by simp
  then have "fl r = Fin (of_int m * q)"
    using False unfolding fl_def Let_def ar e_def[symmetric] e'_def[symmetric] q_def[symmetric] m_def[symmetric]
    by simp
  then show ?thesis using v0 vk by blast
qed

lemma round_half_even_error: "\<bar>of_int (round_half_even x) - x\<bar> \<le> 1 / 2"
proof -
  have "of_int \<lfloor>x\<rfloor> \<le> x" "x < of_int \<lfloor>x\<rfloor> + 1" by linarith+
  then show ?thesis by (auto simp: round_half_even_def Let_def abs_le_iff)
qed

lemma fl_error:
  assumes lo: "2 powi (- 1022) \<le> r" and hi: "r < 2 ^ 1023"
  shows "\<exists>v. fl r = Fin v \<and> \<bar>v - r\<bar> \<le> r / 2 ^ 53"
proof -
  have "(0::rat) < 2 powi (- 1022)" by (simp add: power_int_def)
  with lo have rp: "0 < r" by linarith
  then have ar: "\<bar>r\<bar> = r" and r0: "r \<noteq> 0" by simp_all
  define e where "e = ilog 2 r"
  define q :: rat where "q = 2 powi (e - 52)"
  define m where "m = round_half_even (r / q)"
  from ilog_bounds[of 2 r] rp have eb: "2 powi e \<le> r" "r < 2 powi (e + 1)" by (simp_all add: e_def)
  have "(2::rat) powi (- 1022) < 2 powi (e + 1)" using lo eb(2) by linarith
  then have "- 1022 < e + 1" by (metis linorder_not_less power_int_increasing one_le_numeral)
  then have em: "max e (- 1022) = e" by simp
  have qp: "0 < q" by (simp add: q_def power_int_def)
  have q2: "(2::rat) powi e = 2 ^ 52 * q"
    unfolding q_def using power_int_add[of "2::rat" 52 "e - 52"] by simp
  have "\<bar>of_int m - r / q\<bar> \<le> 1 / 2" unfolding m_def by (rule round_half_even_error)
  then have "\<bar>of_int m - r / q\<bar> * q \<le> 1 / 2 * q" using qp by (intro mult_right_mono) simp_all
  moreover have "\<bar>of_int m - r / q\<bar> * q = \<bar>of_int m * q - r\<bar>"
  proof -
    have "\<bar>of_int m - r / q\<bar> * q = \<bar>(of_int m - r / q) * q\<bar>" using qp by (simp add: abs_mult)
    also have "(of_int m - r / q) * q = of_int m * q - r" using qp by (simp add: field_simps)
    finally show ?thesis .
  qed
  ultimately have err: "\<bar>of_int m * q - r\<bar> \<le> q / 2" by simp
  have "q / 2 = 2 powi e / 2 ^ 53" using q2 by simp
  also have "\<dots> \<le> r / 2 ^ 53" using eb(1) by (simp add: divide_right_mono)
  finally have qr: "q / 2 \<le> r / 2 ^ 53" .
  have "\<bar>of_int m * q\<bar> \<le> \<bar>of_int m * q - r\<bar> + \<bar>r\<bar>" by linarith
  then have "\<bar>of_int m * q\<bar> \<le> r + r / 2 ^ 53" using err qr ar by linarith
  also have "r + r / 2 ^ 53 \<le> r * 2" using rp by (simp add: field_simps)
  also have "r * 2 < 2 ^ 1023 * 2" using hi by simp
  finally have "\<bar>of_int m * q\<bar> < 2 ^ 1024" by simp
  then have "fl r = Fin (of_int m * q)"
    using r0 unfolding fl_def Let_def ar e_def[symmetric] em q_def[symmetric] m_def[symmetric]
    by simp
  then show ?thesis using err qr by (intro exI[of _ "of_int m * q"]) simp
qed

lemma fl_nonneg:
  assumes r: "0 \<le> r" and v: "fl r = Fin v"
  shows "0 \<le> v"
proof (cases "r = 0")
  case True
  then show ?thesis using v by simp
next
  case False
  define q :: rat where "q = 2 powi (max (ilog 2 \<bar>r\<bar>) (- 1022) - 52)"
  define m where "m = round_half_even (r / q)"
  have qp: "0 < q" by (simp add: q_def power_int_def)
  have "of_int 0 \<le> r / q" using r qp by simp
  then have m0: "0 \<le> m" unfolding m_def by (rule round_half_even_ge)
  have "fl r = (if 2 ^ 1024 \<le> \<bar>of_int m * q\<bar> then (if 0 < r then PosInf else NegInf) else Fin (of_int m * q))"
    using False unfolding fl_def Let_def q_def[symmetric] m_def[symmetric] by simp
  with v have "v = of_int m * q" by (simp split: if_splits)
  then show ?thesis using m0 qp by simp
qed

subsection \<open>Evaluation on numerals\<close>

lemma floor_rat_numeral [simp]: "\<lfloor>numeral a / numeral b :: rat\<rfloor> = numeral a div numeral b"
  by (metis floor_divide_of_int_eq of_int_numeral)

lemma floor_rat_one_numeral [simp]: "\<lfloor>1 / numeral b :: rat\<rfloor> = 1 div numeral b"
  by (metis floor_divide_of_int_eq of_int_numeral of_int_1)

lemma ceiling_rat_numeral [simp]: "\<lceil>numeral a / numeral b :: rat\<rceil> = - (- numeral a div numeral b)"
  by (metis ceiling_def floor_divide_of_int_eq minus_divide_left of_int_minus of_int_numeral)

lemma ceiling_rat_one_numeral [simp]: "\<lceil>1 / numeral b :: rat\<rceil> = - (- 1 div numeral b)"
  by (metis ceiling_def floor_divide_of_int_eq minus_divide_left of_int_minus of_int_numeral of_int_1)

lemma decimal_small: "n < 10 \<Longrightarrow> decimal n = [digit_char n]"
  by (subst decimal.simps) simp

lemma decimal_large: "\<not> n < 10 \<Longrightarrow> decimal n = decimal (n div 10) @ [digit_char (n mod 10)]"
  by (subst decimal.simps) simp

lemmas eval_simps = decimal_small decimal_large digit_char_def ndigits_pos ndigits_nonpos
  amountToString_def truthy_num_def fixed2_def two_decimals_def Let_def sign_of_def inf_of_sign_def

subsection \<open>The two-decimal format\<close>

lemma is_digit_digit_char: "0 \<le> d \<Longrightarrow> d < 10 \<Longrightarrow> is_digit (digit_char d)"
proof -
  assume d: "0 \<le> d" "d < 10"
  then have "nat d < length ''0123456789''" by simp
  then have "''0123456789'' ! nat d \<in> set ''0123456789''" by (rule nth_mem)
  then show ?thesis by (simp only: is_digit_def digit_char_def)
qed

lemma decimal_digits: "0 \<le> n \<Longrightarrow> decimal n \<noteq> [] \<and> list_all is_digit (decimal n)"
proof (induction n rule: decimal.induct)
  case (1 n)
  show ?case
  proof (cases "n < 10")
    case True
    then show ?thesis using 1(2) by (simp add: decimal_small is_digit_digit_char)
  next
    case False
    then have "0 \<le> n div 10" by simp
    with 1(1)[OF False] have ih: "list_all is_digit (decimal (n div 10))" by simp
    have "is_digit (digit_char (n mod 10))" by (rule is_digit_digit_char) simp_all
    then show ?thesis using False ih by (simp add: decimal_large)
  qed
qed

lemma amount_format_append:
  "a \<noteq> [] \<Longrightarrow> list_all is_digit a \<Longrightarrow> is_digit b \<Longrightarrow> is_digit c
   \<Longrightarrow> amount_format (a @ ''.'' @ [b, c])"
  by (simp add: amount_format_def)

lemma split_last_two:
  assumes "3 \<le> length m"
  shows "\<exists>a b c. m = a @ [b, c] \<and> a \<noteq> []"
proof -
  obtain a1 c where 1: "m = a1 @ [c]" using assms by (cases m rule: rev_cases) auto
  then have "2 \<le> length a1" using assms by simp
  then obtain a b where 2: "a1 = a @ [b]" by (cases a1 rule: rev_cases) auto
  then have "1 \<le> length a" using \<open>2 \<le> length a1\<close> by simp
  then have "a \<noteq> []" by auto
  then show ?thesis using 1 2 by auto
qed

lemma two_decimals_format:
  assumes "0 \<le> n"
  shows "amount_format (two_decimals n)"
proof -
  define m where "m = decimal n"
  define m' where "m' = (if length m \<le> 2 then replicate (3 - length m) CHR ''0'' @ m else m)"
  from decimal_digits[OF assms] have m: "m \<noteq> []" "list_all is_digit m" by (simp_all add: m_def)
  have z: "is_digit CHR ''0''" by (simp add: is_digit_def)
  have d: "list_all is_digit m'" using m(2) z by (simp add: m'_def list_all_iff)
  have l: "3 \<le> length m'" by (simp add: m'_def)
  from split_last_two[OF l] obtain a b c where abc: "m' = a @ [b, c]" "a \<noteq> []" by blast
  have fx: "two_decimals n = take (length m' - 2) m' @ ''.'' @ drop (length m' - 2) m'"
    unfolding two_decimals_def Let_def m'_def m_def by (rule refl)
  have "take (length m' - 2) m' @ ''.'' @ drop (length m' - 2) m' = a @ ''.'' @ [b, c]"
    by (simp add: abc(1))
  moreover have "amount_format (a @ ''.'' @ [b, c])"
    using d abc by (intro amount_format_append) simp_all
  ultimately show ?thesis by (simp only: fx)
qed

lemma fixed2_format: "0 \<le> x \<Longrightarrow> amount_format (fixed2 x)"
  by (simp add: fixed2_def two_decimals_format)

lemma amountToString_format:
  assumes p: "0 < p" and b: "p < 2 ^ 68"
  shows "amount_format (amountToString (Fin p))"
proof -
  have "p * 100 < 2 ^ 68 * 2 ^ 7" using p b by (intro mult_strict_mono) simp_all
  then have "p * 100 < 2 ^ 75" by simp
  with fl_nonneg_bound[of "p * 100" 75] p obtain v1 where
    v1: "fl (p * 100) = Fin v1" "0 \<le> v1" "v1 \<le> 2 ^ 75" by auto
  define n where "n = \<lfloor>v1 + 1 / 2\<rfloor>"
  have n0: "0 \<le> n" unfolding n_def using v1(2) by simp
  have "v1 + 1 / 2 < of_int (2 ^ 75 + 1)" using v1(3) by simp
  then have "n < 2 ^ 75 + 1" unfolding n_def by (simp only: floor_less_iff)
  then have "n \<le> 2 ^ 75" by simp
  then have "(of_int n :: rat) \<le> of_int (2 ^ 75)" by (simp only: of_int_le_iff)
  then have "(of_int n :: rat) / 100 \<le> 2 ^ 75 / 100" by simp
  also have "(2 ^ 75 / 100 :: rat) < 2 ^ 69" by simp
  finally have "(of_int n :: rat) / 100 < 2 ^ 69" .
  moreover have "0 \<le> (of_int n :: rat) / 100" using n0 by simp
  ultimately obtain v2 where v2: "fl (of_int n / 100) = Fin v2" "0 \<le> v2" "v2 \<le> 2 ^ 69"
    using fl_nonneg_bound[of "of_int n / 100" 69] by auto
  have "v2 < 10 ^ 21" using v2(3) by simp
  then have "toFixed2 (Fin v2) = fixed2 v2" using v2(2) by simp
  moreover have "amountToString (Fin p) = toFixed2 (Fin v2)"
    using p v1(1) v2(1) by (simp add: amountToString_def truthy_num_def n_def)
  ultimately show ?thesis using fixed2_format[OF v2(2)] by simp
qed

lemma amountToString_cents:
  assumes p: "0 < p" and c: "fl (p * 100) = Fin c" and b: "c + 1 / 2 < 2 ^ 52"
  shows "amountToString (Fin p) = two_decimals \<lfloor>c + 1 / 2\<rfloor>"
proof -
  define n where "n = \<lfloor>c + 1 / 2\<rfloor>"
  have a: "amountToString (Fin p) = toFixed2 (js_div (Fin (of_int n)) (Fin 100))"
    using p c by (simp add: amountToString_def truthy_num_def n_def)
  have c0: "0 \<le> c" using fl_nonneg[of "p * 100" c] p c by simp
  have n0: "0 \<le> n" unfolding n_def using c0 by simp
  have nb: "n < 2 ^ 52"
  proof -
    have "c + 1 / 2 < of_int (2 ^ 52)" using b by simp
    then show ?thesis unfolding n_def by (simp only: floor_less_iff)
  qed
  show ?thesis
  proof (cases "n = 0")
    case True
    then show ?thesis using a by (simp add: fixed2_def n_def[symmetric])
  next
    case False
    then have n1: "1 \<le> n" using n0 by simp
    define r :: rat where "r = of_int n / 100"
    have rn: "(1::rat) \<le> of_int n" using n1 by simp
    have rlo: "1 / 100 \<le> r" unfolding r_def using rn by simp
    have "(2::rat) powi (- 1022) \<le> 1 / 100" by simp
    with rlo have lo: "2 powi (- 1022) \<le> r" by linarith
    have nr: "(of_int n :: rat) < 2 ^ 52" using nb by (metis of_int_less_iff of_int_numeral of_int_power)
    then have rhi: "r < 2 ^ 52" unfolding r_def by simp
    then have hi: "r < 2 ^ 1023" by simp
    from fl_error[OF lo hi] obtain v where v: "fl r = Fin v" "\<bar>v - r\<bar> \<le> r / 2 ^ 53" by blast
    have rp: "0 < r" using rlo by simp
    have e1: "\<bar>v - r\<bar> * 100 \<le> of_int n / 2 ^ 53" using v(2) by (simp add: r_def)
    have e2: "(of_int n :: rat) / 2 ^ 53 < 1 / 2" using nr by simp
    have "v * 100 - of_int n = (v - r) * 100" by (simp add: r_def algebra_simps)
    then have e3: "\<bar>v * 100 - of_int n\<bar> = \<bar>v - r\<bar> * 100" by (simp only: abs_mult abs_numeral)
    have near: "\<bar>v * 100 - of_int n\<bar> < 1 / 2" using e1 e2 e3 by linarith
    then have "of_int n \<le> v * 100 + 1 / 2" "v * 100 + 1 / 2 < of_int n + 1" by linarith+
    then have fl_n: "\<lfloor>v * 100 + 1 / 2\<rfloor> = n" by (simp add: floor_unique)
    have v0: "0 \<le> v" using near rn by linarith
    have "v * 100 < of_int n + 1 / 2" using near by linarith
    then have "v * 100 < 2 ^ 52 + 1 / 2" using nr by linarith
    then have v21: "v < 10 ^ 21" by simp
    have "js_div (Fin (of_int n)) (Fin 100) = Fin v" using v(1) by (simp add: r_def)
    then have "amountToString (Fin p) = fixed2 v" using a v0 v21 by simp
    then show ?thesis using fl_n by (simp add: fixed2_def n_def[symmetric])
  qed
qed

subsection \<open>The Numbers of the examples\<close>

lemma fl_500_5: "fl (140878225843683325 / 281474976710656) = Fin (1001 / 2)"
  using fl_eqI[of 8 "140878225843683325 / 281474976710656" 8804889115230208] by simp

lemma fl_5_01: "fl (501 / 100) = Fin (2820379266640773 / 562949953421312)"
  using fl_eqI[of 2 "501 / 100" 5640758533281546] by simp

lemma fl_999_9: "fl (140723414606492475 / 140737488355328) = Fin (2198803353226445 / 2199023255552)"
  using fl_eqI[of 9 "140723414606492475 / 140737488355328" 8795213412905780] by simp

lemma fl_25_01_sum: "fl (14079378335067013 / 562949953421312) = Fin (3519844583766753 / 140737488355328)"
  using fl_eq_tieI[of 4 "14079378335067013 / 562949953421312" 7039689167533506] by simp

lemma fl_2501: "fl (87996114594168825 / 35184372088832) = Fin (2501)"
  using fl_eqI[of 11 "87996114594168825 / 35184372088832" 5499757162135552] by simp

lemma fl_25_01: "fl (2501 / 100) = Fin (7039689167533507 / 281474976710656)"
  using fl_eqI[of 4 "2501 / 100" 7039689167533507] by simp

subsection \<open>Amounts of the examples\<close>

lemma fl_1e307: "fl (10 ^ 307) = Fin (9999999999999999860310597602564577717002641838126363875249660735883565852672743849064846414228960666786379280392654615393353172850252103336275952370615397010730691664689375178569039851073146339641623266071126720011020169553304018596457812688561947201171488461172921822139066929851282122002676667750021070848)"
  using fl_eqI[of 1019 "10 ^ 307" 8016673440035891] by simp

lemma StringToNumber_1e307: "StringToNumber ''1e307'' = Fin (9999999999999999860310597602564577717002641838126363875249660735883565852672743849064846414228960666786379280392654615393353172850252103336275952370615397010730691664689375178569039851073146339641623266071126720011020169553304018596457812688561947201171488461172921822139066929851282122002676667750021070848)"
  using fl_1e307 by (simp add: StringToNumber_def trim_def is_ws_def lower_def unsigned_decimal_def exponent_of_def
      digits_in_def digit_of_def)

lemma StringToNumber_10_00: "StringToNumber ''10.00'' = Fin 10"
  by (simp add: StringToNumber_def trim_def is_ws_def lower_def unsigned_decimal_def exponent_of_def
      digits_in_def digit_of_def)

lemma StringToNumber_5_01: "StringToNumber ''5.01'' = Fin (2820379266640773 / 562949953421312)"
  by (simp add: StringToNumber_def trim_def is_ws_def lower_def unsigned_decimal_def exponent_of_def
      digits_in_def digit_of_def fl_5_01)

lemma StringToNumber_small: "StringToNumber ''2'' = Fin 2" "StringToNumber ''1'' = Fin 1"
  by (simp_all add: StringToNumber_def trim_def is_ws_def lower_def unsigned_decimal_def exponent_of_def
      digits_in_def digit_of_def)

lemma fl_5_01_exact: "fl (2820379266640773 / 562949953421312) = Fin (2820379266640773 / 562949953421312)"
  using fl_exact[of "2820379266640773 / 562949953421312" 2820379266640773 "- 49"] by simp

lemma calculateOrderTotal_rounding: "calculateOrderTotal example_items_rounding = ''25.01''"
  by (simp add: calculateOrderTotal_def example_items_rounding_def StringToNumber_10_00 StringToNumber_5_01 StringToNumber_small eval_simps
      fl_25_01_sum fl_2501 fl_25_01 fl_5_01_exact)

lemma fl_1e24: "fl (1000000000000000000000000) = Fin (999999999999999983222784)"
  using fl_eqI[of 79 "1000000000000000000000000" 7450580596923828] by simp

lemma fl_1e22_div: "fl (249999999999999995805696 / 25) = Fin (10000000000000000000000)"
  using fl_eqI[of 73 "249999999999999995805696 / 25" 4768371582031250] by simp

lemma fl_1e22: "fl (10000000000000000000000) = Fin (10000000000000000000000)"
  using fl_exact[of "10000000000000000000000" "5 ^ 22" 22] by simp

lemma fl_1e23: "fl (100000000000000000000000) = Fin (99999999999999991611392)"
  using fl_eq_tieI[of 76 "100000000000000000000000" 5960464477539062] by simp

lemma amountToString_1e22: "amountToString (Fin (10 ^ 22)) = ''1e+22''"
  by (simp add: eval_simps fl_1e24 fl_1e22_div fl_1e22 fl_1e23 pos_to_string_def ilog_def
      digit_candidates_def closer_def)

lemma amountToString_1e307: "amountToString (StringToNumber ''1e307'') = ''Infinity''"
  by (simp add: StringToNumber_1e307 eval_simps fl_overflow)

lemma amount_format_examples: "\<not> amount_format ''1e+22''" "amount_format ''25.01''"
  by (simp_all add: amount_format_def is_digit_def)

lemma pos_to_string_small: "pos_to_string 1 = ''1''" "pos_to_string 2 = ''2''"
  by (simp_all add: eval_simps pos_to_string_def ilog_def digit_candidates_def closer_def)

lemma numberToString_small: "numberToString (Fin 1) = ''1''" "numberToString (Fin 2) = ''2''"
  by (simp_all add: pos_to_string_small)

lemma amountToString_9_999: "amountToString (Fin (5628936584259699 / 562949953421312)) = ''10.00''"
  by (simp add: eval_simps fl_999_9)

lemma amountToString_small: "amountToString (Fin 10) = ''10.00''" "amountToString (Fin 39) = ''39.00''"
  by (simp_all add: eval_simps)

lemma amountToString_5_005:
  "amountToString (Fin (5635129033747333 / 1125899906842624)) = ''5.01''"
  by (simp add: eval_simps fl_500_5 fl_5_01)

lemma fl_1_005: "fl (201 / 200) = Fin (1131529406376837 / 1125899906842624)"
  using fl_eqI[of 0 "201 / 200" 4526117625507348] by simp

lemma StringToNumber_1_005: "StringToNumber ''1.005'' = Fin (1131529406376837 / 1125899906842624)"
  using fl_1_005 by (simp add: StringToNumber_def trim_def is_ws_def lower_def unsigned_decimal_def exponent_of_def
      digits_in_def digit_of_def)

lemma fl_100_4999: "fl (28288235159420925 / 281474976710656) = Fin (7072058789855231 / 70368744177664)"
  using fl_eqI[of 6 "28288235159420925 / 281474976710656" 7072058789855231] by simp

lemma amountToString_1_005: "amountToString (StringToNumber ''1.005'') = ''1.00''"
  by (simp add: StringToNumber_1_005 eval_simps fl_100_4999)

subsection \<open>Conversions that throw\<close>

lemma message_Error [simp]: "message (Error msg) = msg" "err_status (Error msg) = None" "paypal (Error msg) = None"
  by (simp_all add: Error_def)

lemma to_string_error:
  "(to_string v = Inl e \<longrightarrow> e = Error ''Cannot convert object to primitive value'')"
  "(to_strings vs = Inl e \<longrightarrow> e = Error ''Cannot convert object to primitive value'')"
  by (induction v and vs rule: to_string_to_strings.induct)
     (auto split: sum.splits if_splits)

lemma ToNumber_error:
  "ToNumber v = Inl e \<Longrightarrow> e = Error ''Cannot convert object to primitive value''"
  using to_string_error(1)[of v e]
  by (auto simp: ToNumber_def split: jsval.splits sum.splits if_splits)

lemma optional_trim_error:
  "optional_trim v = Inl e \<Longrightarrow> e = Error ''item?.name?.trim is not a function''"
  by (auto simp: optional_trim_def split: jsval.splits)

lemma optional_trim_Some:
  "optional_trim v = Inr (Some nm) \<longleftrightarrow> (\<exists>s. v = JStr s \<and> nm = trim s)"
  by (auto simp: optional_trim_def split: jsval.splits)

lemma optional_trim_None:
  "optional_trim v = Inr None \<longleftrightarrow> nullish v"
  by (auto simp: optional_trim_def nullish_def split: jsval.splits)

subsection \<open>Items one at a time\<close>

lemma normalizeItem_valid:
  assumes "valid_item item"
  shows "\<exists>s p q. opt item ''name'' = JStr s \<and> price_of item = Inr (Fin p) \<and> 0 < p
    \<and> quantity_of item = Inr (Fin q) \<and>
    normalizeItem cur index item =
      Inr \<lparr>reference_id = coalesce (opt item ''id'') (JStr (''ITEM-'' @ decimal (int index + 1))),
           name = trim s,
           quantity = numberToString (Fin q),
           category = coalesce (opt item ''category'') (JStr ''DIGITAL_GOODS''),
           unit_amount = \<lparr>currency_code = cur, val = amountToString (Fin p)\<rparr>\<rparr>"
proof -
  from assms obtain s where s: "opt item ''name'' = JStr s" "trim s \<noteq> []"
    by (auto simp: valid_item_def split: jsval.splits)
  from assms obtain p where p: "price_of item = Inr (Fin p)" "0 < p"
    by (auto simp: valid_item_def split: sum.splits jsnum.splits)
  from assms obtain q where q: "quantity_of item = Inr (Fin q)" "0 < q" "of_int \<lfloor>q\<rfloor> = q"
    by (auto simp: valid_item_def split: sum.splits jsnum.splits)
  have "normalizeItem cur index item =
      Inr \<lparr>reference_id = coalesce (opt item ''id'') (JStr (''ITEM-'' @ decimal (int index + 1))),
           name = trim s,
           quantity = numberToString (Fin q),
           category = coalesce (opt item ''category'') (JStr ''DIGITAL_GOODS''),
           unit_amount = \<lparr>currency_code = cur, val = amountToString (Fin p)\<rparr>\<rparr>"
    using s p q
    by (simp add: normalizeItem_def Let_def price_of_def quantity_of_def optional_trim_def)
  then show ?thesis using s p q by blast
qed

lemma normalizeItem_invalid:
  assumes "\<not> valid_item item"
  shows "\<exists>msg. normalizeItem cur index item = Inl (Error msg) \<and> msg \<noteq> [] \<and>
     (msg = missing_name_message index
      \<or> (\<exists>nm. optional_trim (opt item ''name'') = Inr (Some nm) \<and> nm \<noteq> []
            \<and> (msg = invalid_price_message nm \<and> bad_price item
               \<or> msg = invalid_quantity_message nm \<and> \<not> bad_price item))
      \<or> msg = ''item?.name?.trim is not a function''
         \<and> \<not> nullish (opt item ''name'') \<and> (\<forall>s. opt item ''name'' \<noteq> JStr s)
      \<or> msg = ''Cannot convert object to primitive value''
         \<and> (\<exists>e. quantity_of item = Inl e \<or> price_of item = Inl e))"
proof (cases "optional_trim (opt item ''name'')")
  case (Inl e)
  then have e: "e = Error ''item?.name?.trim is not a function''" by (rule optional_trim_error)
  have "\<not> nullish (opt item ''name'') \<and> (\<forall>s. opt item ''name'' \<noteq> JStr s)"
    using Inl by (auto simp: optional_trim_def nullish_def split: jsval.splits)
  moreover have "normalizeItem cur index item = Inl (Error ''item?.name?.trim is not a function'')"
    using Inl e by (simp add: normalizeItem_def Let_def)
  ultimately show ?thesis by (intro exI[of _ "''item?.name?.trim is not a function''"]) simp
next
  case (Inr nm)
  show ?thesis
  proof (cases "quantity_of item")
    case (Inl e)
    then have e: "e = Error ''Cannot convert object to primitive value''"
      unfolding quantity_of_def by (rule ToNumber_error)
    have "normalizeItem cur index item = Inl (Error ''Cannot convert object to primitive value'')"
      using Inr Inl e by (simp add: normalizeItem_def Let_def quantity_of_def)
    then show ?thesis using Inl
      by (intro exI[of _ "''Cannot convert object to primitive value''"]) auto
  next
    case q: (Inr q)
    show ?thesis
    proof (cases "price_of item")
      case (Inl e)
      then have e: "e = Error ''Cannot convert object to primitive value''"
        unfolding price_of_def by (rule ToNumber_error)
      have "normalizeItem cur index item = Inl (Error ''Cannot convert object to primitive value'')"
        using Inr q Inl e by (simp add: normalizeItem_def Let_def quantity_of_def price_of_def)
      then show ?thesis using Inl
        by (intro exI[of _ "''Cannot convert object to primitive value''"]) auto
    next
      case p: (Inr p)
      have unf: "normalizeItem cur index item =
           (if nm = None \<or> nm = Some []
             then Inl (Error (missing_name_message index))
           else if \<not> isFinite p \<or> js_le p (Fin 0)
             then Inl (Error (invalid_price_message (the nm)))
           else if \<not> isInteger q \<or> js_le q (Fin 0)
             then Inl (Error (invalid_quantity_message (the nm)))
           else Inr \<lparr>reference_id = coalesce (opt item ''id'') (JStr (''ITEM-'' @ decimal (int index + 1))),
                     name = the nm,
                     quantity = numberToString q,
                     category = coalesce (opt item ''category'') (JStr ''DIGITAL_GOODS''),
                     unit_amount = \<lparr>currency_code = cur, val = amountToString p\<rparr>\<rparr>)"
        using Inr q p
        by (simp add: normalizeItem_def Let_def quantity_of_def price_of_def
            missing_name_message_def invalid_price_message_def invalid_quantity_message_def)
      have ne: "missing_name_message index \<noteq> []" "\<And>n. invalid_price_message n \<noteq> []"
        "\<And>n. invalid_quantity_message n \<noteq> []"
        by (simp_all add: missing_name_message_def invalid_price_message_def invalid_quantity_message_def)
      show ?thesis
      proof (cases "nm = None \<or> nm = Some []")
        case True
        then show ?thesis using unf ne by (intro exI[of _ "missing_name_message index"]) simp
      next
        case False
        then obtain n where n: "nm = Some n" "n \<noteq> []" by (cases nm) auto
        from Inr n obtain s where s: "opt item ''name'' = JStr s" "n = trim s"
          by (auto simp: optional_trim_Some)
        show ?thesis
        proof (cases "\<not> isFinite p \<or> js_le p (Fin 0)")
          case True
          then have "bad_price item" using p by (cases p) (auto simp: bad_price_def)
          then show ?thesis using unf n True Inr ne
            by (intro exI[of _ "invalid_price_message n"]) auto
        next
          case pf: False
          then obtain pp where pp: "p = Fin pp" "0 < pp" by (cases p) auto
          then have nb: "\<not> bad_price item" using p by (simp add: bad_price_def)
          have "\<not> isInteger q \<or> js_le q (Fin 0)"
          proof (rule ccontr)
            assume "\<not> (\<not> isInteger q \<or> js_le q (Fin 0))"
            then obtain qq where "q = Fin qq" "0 < qq" "of_int \<lfloor>qq\<rfloor> = qq" by (cases q) auto
            then have "valid_item item" using s n p pp q by (simp add: valid_item_def)
            then show False using assms by simp
          qed
          then show ?thesis using unf n pf Inr ne nb
            by (intro exI[of _ "invalid_quantity_message n"]) auto
        qed
      qed
    qed
  qed
qed

subsection \<open>The example carts\<close>

lemma fl_2e22: "fl 20000000000000000000000 = Fin 20000000000000000000000"
  using fl_exact[of "20000000000000000000000" "5 ^ 22" 23] by simp

lemma fl_2e20: "fl 200000000000000000000 = Fin 200000000000000000000"
  using fl_exact[of "200000000000000000000" "5 ^ 20" 21] by simp

lemma fl_1e21: "fl 1000000000000000000000 = Fin 1000000000000000000000"
  using fl_exact[of "1000000000000000000000" "5 ^ 21" 21] by simp

lemma fl_2e21: "fl 2000000000000000000000 = Fin 2000000000000000000000"
  using fl_exact[of "2000000000000000000000" "5 ^ 21" 22] by simp

lemma fl_12e20: "fl 1200000000000000000000 = Fin 1200000000000000000000"
  using fl_exact[of "1200000000000000000000" "3 * 5 ^ 20" 22] by simp

lemma fl_12e22: "fl 120000000000000000000000 = Fin 120000000000000000000000"
  using fl_exact[of "120000000000000000000000" "3 * 5 ^ 22" 24] by simp

lemma amountToString_2e20: "amountToString (Fin (2 * 10 ^ 20)) = ''200000000000000000000.00''"
  by (simp add: eval_simps fl_2e22 fl_2e20)

lemma pos_to_string_6: "pos_to_string 6 = ''6''"
  by (simp add: eval_simps pos_to_string_def ilog_def digit_candidates_def closer_def)

lemma StringToNumber_2e20: "StringToNumber ''200000000000000000000.00'' = Fin 200000000000000000000"
  by (simp add: StringToNumber_def trim_def is_ws_def lower_def unsigned_decimal_def exponent_of_def
      digits_in_def digit_of_def fl_2e20)

lemma StringToNumber_6: "StringToNumber ''6'' = Fin 6"
  by (simp add: StringToNumber_def trim_def is_ws_def lower_def unsigned_decimal_def exponent_of_def
      digits_in_def digit_of_def)

lemma amountToString_12e20: "amountToString (Fin 1200000000000000000000) = ''1.2e+21''"
  by (simp add: eval_simps fl_12e22 fl_12e20 fl_1e21 fl_2e21 fl_1e22 fl_2e22 pos_to_string_def ilog_def
      digit_candidates_def closer_def)

lemma calculateOrderTotal_2e20: "calculateOrderTotal example_items_2e20 = ''1.2e+21''"
  by (simp add: calculateOrderTotal_def example_items_2e20_def StringToNumber_2e20 StringToNumber_6
      fl_12e20 amountToString_12e20)

lemma normalizeItems_2e20:
  "normalizeItems ''USD'' (JArr example_cart_2e20) = Inr example_items_2e20"
  by (simp add: normalizeItems_def normalizeItem_def example_cart_2e20_def example_items_2e20_def
      optional_trim_def ToNumber_def coalesce_def nullish_def opt_def
      trim_def is_ws_def amountToString_2e20[simplified] pos_to_string_6
      decimal_small digit_char_def)

lemma normalizeItems_rounding:
  "normalizeItems ''USD'' (JArr example_cart_rounding) = Inr example_items_rounding"
  by (simp add: normalizeItems_def normalizeItem_def example_cart_rounding_def example_items_rounding_def
      optional_trim_def ToNumber_def coalesce_def nullish_def opt_def
      trim_def is_ws_def amountToString_small amountToString_5_005 pos_to_string_small
      decimal_small digit_char_def)

subsection \<open>Lists of items\<close>

lemma map_items_valid:
  "list_all valid_item xs \<Longrightarrow>
   \<exists>ys. map_items cur index xs = Inr ys \<and> length ys = length xs
     \<and> (\<forall>k < length xs. normalizeItem cur (index + k) (xs ! k) = Inr (ys ! k))"
proof (induction xs arbitrary: index)
  case Nil
  then show ?case by simp
next
  case (Cons x xs)
  from Cons.prems have vx: "valid_item x" and vxs: "list_all valid_item xs" by simp_all
  from normalizeItem_valid[OF vx, of cur index] obtain y where y: "normalizeItem cur index x = Inr y"
    by blast
  from Cons.IH[OF vxs, of "index + 1"] obtain ys where ys: "map_items cur (index + 1) xs = Inr ys"
    "length ys = length xs"
    "\<forall>k < length xs. normalizeItem cur (index + 1 + k) (xs ! k) = Inr (ys ! k)" by blast
  have "\<forall>k < length (x # xs). normalizeItem cur (index + k) ((x # xs) ! k) = Inr ((y # ys) ! k)"
  proof (intro allI impI)
    fix k assume k: "k < length (x # xs)"
    show "normalizeItem cur (index + k) ((x # xs) ! k) = Inr ((y # ys) ! k)"
    proof (cases k)
      case 0
      then show ?thesis using y by simp
    next
      case (Suc j)
      then have "j < length xs" using k by simp
      with ys(3) have "normalizeItem cur (index + 1 + j) (xs ! j) = Inr (ys ! j)" by blast
      then show ?thesis using Suc by simp
    qed
  qed
  then show ?case using y ys(1,2) by simp
qed

lemma map_items_invalid:
  "list_ex (\<lambda>x. \<not> valid_item x) xs \<Longrightarrow>
   \<exists>e j. map_items cur index xs = Inl e \<and> j < length xs \<and> \<not> valid_item (xs ! j)
     \<and> (\<forall>k < j. valid_item (xs ! k)) \<and> normalizeItem cur (index + j) (xs ! j) = Inl e"
proof (induction xs arbitrary: index)
  case Nil
  then show ?case by simp
next
  case (Cons x xs)
  show ?case
  proof (cases "valid_item x")
    case False
    from normalizeItem_invalid[OF False, of cur index] obtain e where
      e: "normalizeItem cur index x = Inl e" by blast
    have "map_items cur index (x # xs) = Inl e" using e by simp
    moreover have "\<not> valid_item ((x # xs) ! 0)" using False by simp
    moreover have "normalizeItem cur (index + 0) ((x # xs) ! 0) = Inl e" using e by simp
    ultimately show ?thesis by (intro exI[of _ e] exI[of _ 0]) simp
  next
    case True
    from normalizeItem_valid[OF True, of cur index] obtain y where y: "normalizeItem cur index x = Inr y"
      by blast
    from Cons.prems True have "list_ex (\<lambda>x. \<not> valid_item x) xs" by simp
    from Cons.IH[OF this, of "index + 1"] obtain e j where ej:
      "map_items cur (index + 1) xs = Inl e" "j < length xs" "\<not> valid_item (xs ! j)"
      "\<forall>k < j. valid_item (xs ! k)" "normalizeItem cur (index + 1 + j) (xs ! j) = Inl e" by blast
    have 1: "map_items cur index (x # xs) = Inl e" using y ej(1) by simp
    have 2: "\<forall>k < Suc j. valid_item ((x # xs) ! k)"
    proof (intro allI impI)
      fix k assume "k < Suc j"
      then show "valid_item ((x # xs) ! k)" using True ej(4) by (cases k) simp_all
    qed
    show ?thesis
      using 1 2 ej(2,3,5) by (intro exI[of _ e] exI[of _ "Suc j"]) simp
  qed
qed

lemma normalizeItems_not_list:
  "cart = JArr [] \<or> (\<forall>xs. cart \<noteq> JArr xs)
   \<Longrightarrow> normalizeItems cur cart = Inl (Error ''Missing cart items.'')"
  by (cases cart) (auto simp: normalizeItems_def)

lemma normalizeItems_list:
  "xs \<noteq> [] \<Longrightarrow> normalizeItems cur (JArr xs) = map_items cur 0 xs"
  by (simp add: normalizeItems_def)

lemma normalizeItems_malformed:
  assumes "malformed_cart cart"
  shows "\<exists>msg. normalizeItems cur cart = Inl (Error msg) \<and> msg \<noteq> []"
proof (cases "cart = JArr [] \<or> (\<forall>xs. cart \<noteq> JArr xs)")
  case True
  from normalizeItems_not_list[OF this, of cur] show ?thesis
    by (intro exI[of _ "''Missing cart items.''"]) simp
next
  case False
  then obtain xs where xs: "cart = JArr xs" "xs \<noteq> []" by auto
  with assms have ex: "list_ex (\<lambda>x. \<not> valid_item x) xs" by (simp add: malformed_cart_def)
  from map_items_invalid[OF ex, of cur 0] obtain e j where ej:
    "map_items cur 0 xs = Inl e" "\<not> valid_item (xs ! j)" "normalizeItem cur (0 + j) (xs ! j) = Inl e"
    by blast
  from normalizeItem_invalid[OF ej(2), of cur j] ej(3) obtain msg where
    msg: "e = Error msg" "msg \<noteq> []" by auto
  have "normalizeItems cur cart = Inl (Error msg)"
    using ej(1) msg(1) xs by (simp add: normalizeItems_list)
  then show ?thesis using msg(2) by blast
qed

subsection \<open>Carts with prices below \<open>2\<^sup>6\<^sup>8\<close>\<close>

lemma normalizeItem_valid_val:
  assumes "valid_item item" and "normalizeItem cur index item = Inr y"
  shows "\<exists>p. price_of item = Inr (Fin p) \<and> 0 < p \<and> val (unit_amount y) = amountToString (Fin p)"
proof -
  from normalizeItem_valid[OF assms(1), of cur index] assms(2)
  obtain s p q where "price_of item = Inr (Fin p)" "0 < p"
    "y = \<lparr>reference_id = coalesce (opt item ''id'') (JStr (''ITEM-'' @ decimal (int index + 1))),
           name = trim s,
           quantity = numberToString (Fin q),
           category = coalesce (opt item ''category'') (JStr ''DIGITAL_GOODS''),
           unit_amount = \<lparr>currency_code = cur, val = amountToString (Fin p)\<rparr>\<rparr>"
    by auto
  then show ?thesis by simp
qed

lemma normalizeItems_amount_format:
  assumes "xs \<noteq> []" and "list_all valid_item xs"
    and "list_all (\<lambda>x. case price_of x of Inr (Fin p) \<Rightarrow> p < 2 ^ 68 | _ \<Rightarrow> True) xs"
  shows "\<exists>ys. normalizeItems cur (JArr xs) = Inr ys \<and> length ys = length xs
    \<and> (\<forall>k < length xs. normalizeItem cur k (xs ! k) = Inr (ys ! k))
    \<and> list_all (\<lambda>y. amount_format (val (unit_amount y))) ys"
proof -
  from map_items_valid[OF assms(2), of cur 0] obtain ys where ys:
    "map_items cur 0 xs = Inr ys" "length ys = length xs"
    "\<forall>k < length xs. normalizeItem cur (0 + k) (xs ! k) = Inr (ys ! k)" by blast
  have "amount_format (val (unit_amount (ys ! k)))" if k: "k < length ys" for k
  proof -
    have kx: "k < length xs" using k ys(2) by simp
    have v: "valid_item (xs ! k)" using assms(2) kx by (simp add: list_all_length)
    have n: "normalizeItem cur k (xs ! k) = Inr (ys ! k)" using ys(3) kx by simp
    from normalizeItem_valid_val[OF v n] obtain p where p:
      "price_of (xs ! k) = Inr (Fin p)" "0 < p" "val (unit_amount (ys ! k)) = amountToString (Fin p)"
      by blast
    have "p < 2 ^ 68" using assms(3) kx p(1) by (auto simp: list_all_length)
    then have "amount_format (amountToString (Fin p))" using p(2) by (intro amountToString_format)
    then show ?thesis using p(3) by simp
  qed
  then have "list_all (\<lambda>y. amount_format (val (unit_amount y))) ys" by (simp add: list_all_length)
  then show ?thesis using ys assms(1) by (simp add: normalizeItems_list)
qed

subsection \<open>An empty or missing cart\<close>

text \<open>
  C5. For the empty cart \<open>[]\<close>, and for an \<open>items\<close> that is missing or not a list,
  \<open>normalizeItems\<close> throws the error "Missing cart items.", the handler of
  \<open>POST /api/orders\<close> answers with that message, and it sends no request to the gateway,
  neither for a token nor for an order: the calls made are those made before.
\<close>

theorem create_order_missing_items:
  assumes "cart = JArr [] \<or> cart = JUndefined \<or> (\<forall>xs. cart \<noteq> JArr xs)"
  shows "normalizeItems (PAYPAL_CURRENCY cfg) cart = Inl (Error ''Missing cart items.'')
    \<and> json_body (fst (create_order ev cfg cart w)) = JObj [(''message'', JStr ''Missing cart items.'')]
    \<and> calls (snd (create_order ev cfg cart w)) = calls w"
proof -
  from assms have "cart = JArr [] \<or> (\<forall>xs. cart \<noteq> JArr xs)" by auto
  from normalizeItems_not_list[OF this, of "PAYPAL_CURRENCY cfg"] show ?thesis
    by (simp add: create_order_def error_middleware_def Error_def)
qed

theorem create_order_missing_items_witness:
  "json_body (fst (create_order example_env_disk_failure example_config (JArr []) empty_world))
     = JObj [(''message'', JStr ''Missing cart items.'')]
   \<and> calls (snd (create_order example_env_disk_failure example_config (JArr []) empty_world)) = []"
  using create_order_missing_items[of "JArr []" example_config example_env_disk_failure empty_world]
  by (simp add: empty_world_def)

subsection \<open>Reference ids\<close>

text \<open>
  C10. For a cart whose items are all valid, \<open>normalizeItems\<close> returns as many items,
  and the item at 1-based position \<open>n\<close> has the \<open>id\<close> of the input item as its
  \<open>reference_id\<close> when the input has one, and \<open>ITEM-n\<close> (with \<open>n\<close> in decimal) when the
  \<open>id\<close> is absent or \<open>null\<close>.
\<close>

theorem normalizeItems_reference_id:
  assumes "xs \<noteq> []" and "list_all valid_item xs"
  shows "\<exists>ys. normalizeItems cur (JArr xs) = Inr ys \<and> length ys = length xs
    \<and> (\<forall>n. 1 \<le> n \<and> n \<le> length xs \<longrightarrow>
          reference_id (ys ! (n - 1)) =
            (if opt (xs ! (n - 1)) ''id'' = JUndefined \<or> opt (xs ! (n - 1)) ''id'' = JNull
             then JStr (''ITEM-'' @ decimal (int n)) else opt (xs ! (n - 1)) ''id''))"
proof -
  from map_items_valid[OF assms(2), of cur 0] obtain ys where ys:
    "map_items cur 0 xs = Inr ys" "length ys = length xs"
    "\<forall>k < length xs. normalizeItem cur (0 + k) (xs ! k) = Inr (ys ! k)" by blast
  have "reference_id (ys ! (n - 1)) =
            (if opt (xs ! (n - 1)) ''id'' = JUndefined \<or> opt (xs ! (n - 1)) ''id'' = JNull
             then JStr (''ITEM-'' @ decimal (int n)) else opt (xs ! (n - 1)) ''id'')"
    if n: "1 \<le> n" "n \<le> length xs" for n
  proof -
    obtain k where nk: "n = Suc k" using n by (cases n) auto
    have k: "k < length xs" using n nk by simp
    have v: "valid_item (xs ! k)" using assms(2) k by (simp add: list_all_length)
    have "normalizeItem cur k (xs ! k) = Inr (ys ! k)" using ys(3) k by simp
    with normalizeItem_valid[OF v, of cur k]
    have "reference_id (ys ! k) = coalesce (opt (xs ! k) ''id'') (JStr (''ITEM-'' @ decimal (int k + 1)))"
      by auto
    moreover have "int k + 1 = int n" using nk by simp
    ultimately show ?thesis using nk by (simp add: coalesce_def nullish_def add.commute)
  qed
  then show ?thesis using ys(1,2) assms(1) by (simp add: normalizeItems_list)
qed

lemma example_cart_valid: "list_all valid_item example_cart"
  by (simp add: example_cart_def valid_item_def price_of_def quantity_of_def ToNumber_def
      coalesce_def nullish_def opt_def trim_def is_ws_def)

theorem normalizeItems_reference_id_witness:
  "\<exists>ys. normalizeItems ''USD'' (JArr example_cart) = Inr ys \<and> length ys = 2
     \<and> reference_id (ys ! 0) = JStr ''startup'' \<and> reference_id (ys ! 1) = JStr ''ITEM-2''"
proof -
  have ne: "example_cart \<noteq> []" by (simp add: example_cart_def)
  from normalizeItems_reference_id[OF ne example_cart_valid, of "''USD''"] obtain ys where ys:
    "normalizeItems ''USD'' (JArr example_cart) = Inr ys" "length ys = length example_cart"
    "\<forall>n. 1 \<le> n \<and> n \<le> length example_cart \<longrightarrow>
          reference_id (ys ! (n - 1)) =
            (if opt (example_cart ! (n - 1)) ''id'' = JUndefined \<or> opt (example_cart ! (n - 1)) ''id'' = JNull
             then JStr (''ITEM-'' @ decimal (int n)) else opt (example_cart ! (n - 1)) ''id'')" by blast
  from ys(3)[rule_format, of 1] have 1: "reference_id (ys ! 0) = JStr ''startup''"
    by (simp add: example_cart_def opt_def)
  from ys(3)[rule_format, of 2] have 2: "reference_id (ys ! 1) = JStr ''ITEM-2''"
    by (simp add: example_cart_def opt_def decimal_small digit_char_def)
  have 3: "length ys = 2" using ys(2) by (simp add: example_cart_def)
  show ?thesis using ys(1) 1 2 3 by blast
qed

subsection \<open>A price that is not valid\<close>

lemma normalizeItems_bad_price_error:
  assumes "i < length xs" and "bad_price (xs ! i)"
  shows "\<exists>msg j. normalizeItems cur (JArr xs) = Inl (Error msg) \<and> j \<le> i
    \<and> (\<forall>k < j. valid_item (xs ! k)) \<and> \<not> valid_item (xs ! j)
    \<and> (msg = missing_name_message j
        \<or> (\<exists>nm. optional_trim (opt (xs ! j) ''name'') = Inr (Some nm) \<and> nm \<noteq> []
              \<and> (msg = invalid_price_message nm \<and> bad_price (xs ! j)
                 \<or> msg = invalid_quantity_message nm \<and> j < i))
        \<or> msg = ''item?.name?.trim is not a function''
           \<and> \<not> nullish (opt (xs ! j) ''name'') \<and> (\<forall>s. opt (xs ! j) ''name'' \<noteq> JStr s)
        \<or> msg = ''Cannot convert object to primitive value''
           \<and> (\<exists>e. quantity_of (xs ! j) = Inl e \<or> price_of (xs ! j) = Inl e))"
proof -
  have nv: "\<not> valid_item (xs ! i)"
    using assms(2) by (auto simp: valid_item_def bad_price_def split: sum.splits jsnum.splits)
  then have ex: "list_ex (\<lambda>x. \<not> valid_item x) xs" using assms(1) by (auto simp: list_ex_length)
  have ne: "xs \<noteq> []" using assms(1) by auto
  from map_items_invalid[OF ex, of cur 0] obtain e j where ej:
    "map_items cur 0 xs = Inl e" "j < length xs" "\<not> valid_item (xs ! j)"
    "\<forall>k < j. valid_item (xs ! k)" "normalizeItem cur (0 + j) (xs ! j) = Inl e" by blast
  have ji: "j \<le> i" using ej(4) nv by (meson not_le_imp_less)
  from normalizeItem_invalid[OF ej(3), of cur j] ej(5) obtain msg where
    e: "e = Error msg" and
    m: "msg = missing_name_message j
      \<or> (\<exists>nm. optional_trim (opt (xs ! j) ''name'') = Inr (Some nm) \<and> nm \<noteq> []
            \<and> (msg = invalid_price_message nm \<and> bad_price (xs ! j)
               \<or> msg = invalid_quantity_message nm \<and> \<not> bad_price (xs ! j)))
      \<or> msg = ''item?.name?.trim is not a function''
         \<and> \<not> nullish (opt (xs ! j) ''name'') \<and> (\<forall>s. opt (xs ! j) ''name'' \<noteq> JStr s)
      \<or> msg = ''Cannot convert object to primitive value''
         \<and> (\<exists>e. quantity_of (xs ! j) = Inl e \<or> price_of (xs ! j) = Inl e)" by auto
  have "j < i" if "\<not> bad_price (xs ! j)"
    using that assms(2) ji by (cases "j = i") auto
  with m have m': "msg = missing_name_message j
      \<or> (\<exists>nm. optional_trim (opt (xs ! j) ''name'') = Inr (Some nm) \<and> nm \<noteq> []
            \<and> (msg = invalid_price_message nm \<and> bad_price (xs ! j)
               \<or> msg = invalid_quantity_message nm \<and> j < i))
      \<or> msg = ''item?.name?.trim is not a function''
         \<and> \<not> nullish (opt (xs ! j) ''name'') \<and> (\<forall>s. opt (xs ! j) ''name'' \<noteq> JStr s)
      \<or> msg = ''Cannot convert object to primitive value''
         \<and> (\<exists>e. quantity_of (xs ! j) = Inl e \<or> price_of (xs ! j) = Inl e)" by blast
  have "normalizeItems cur (JArr xs) = Inl (Error msg)" using ej(1) ne e by (simp add: normalizeItems_list)
  then show ?thesis using ji ej(3,4) m' by blast
qed

text \<open>
  C6. A list with an item whose price is not a finite number or is at most 0 makes
  \<open>normalizeItems\<close> throw, so that no item of the output exists
  (\<open>normalizeItems_bad_price_error\<close>); the error names the first item of the list that is
  not valid when that item's name is a string or is missing and its price and quantity
  convert to Numbers. But it does not name an item always: in the cart
  \<^verbatim>\<open>[{name:5, price:-1}]\<close> the price is negative, and \<open>item?.name?.trim()\<close> throws the
  TypeError "item?.name?.trim is not a function" before any check is made, a message
  that is none of the three that name an item.
\<close>

theorem normalizeItems_name_not_string:
  "bad_price (example_cart_name_number ! 0)
   \<and> normalizeItems ''USD'' (JArr example_cart_name_number)
       = Inl (Error ''item?.name?.trim is not a function'')
   \<and> (\<forall>j. ''item?.name?.trim is not a function'' \<noteq> missing_name_message j)
   \<and> (\<forall>nm. ''item?.name?.trim is not a function'' \<noteq> invalid_price_message nm
          \<and> ''item?.name?.trim is not a function'' \<noteq> invalid_quantity_message nm)"
  by (simp add: example_cart_name_number_def bad_price_def price_of_def ToNumber_def coalesce_def
      nullish_def opt_def normalizeItems_def normalizeItem_def optional_trim_def
      missing_name_message_def invalid_price_message_def invalid_quantity_message_def)

theorem normalizeItems_name_not_string_witness:
  "\<exists>e. normalizeItems ''USD'' (JArr example_cart_name_number) = Inl e
     \<and> message e = ''item?.name?.trim is not a function''"
  using normalizeItems_name_not_string by simp

lemma normalizeItems_example_bad_price:
  "normalizeItems ''USD'' (JArr example_cart_bad_price) = Inl (Error (invalid_price_message ''B''))"
  by (simp add: example_cart_bad_price_def normalizeItems_def normalizeItem_def Let_def
      optional_trim_def ToNumber_def coalesce_def nullish_def opt_def trim_def is_ws_def
      invalid_price_message_def)

subsection \<open>The response to a malformed cart\<close>

text \<open>
  C2, as amended. For a malformed cart (missing, not a list, empty, or with an item whose
  name, price or quantity is not valid) the handler of \<open>POST /api/orders\<close> answers
  with status 500 and a body \<open>{message}\<close> whose message is not empty, and sends nothing
  to the gateway: the errors \<open>normalizeItems\<close> throws carry no \<open>status\<close>, and the error
  middleware answers 500 for an error without one.
\<close>

theorem create_order_malformed:
  assumes "malformed_cart cart"
  shows "status_code (fst (create_order ev cfg cart w)) = 500
    \<and> (\<exists>msg. msg \<noteq> [] \<and> json_body (fst (create_order ev cfg cart w)) = JObj [(''message'', JStr msg)])
    \<and> calls (snd (create_order ev cfg cart w)) = calls w"
proof -
  from normalizeItems_malformed[OF assms, of "PAYPAL_CURRENCY cfg"] obtain msg where
    msg: "normalizeItems (PAYPAL_CURRENCY cfg) cart = Inl (Error msg)" "msg \<noteq> []" by blast
  then show ?thesis by (simp add: create_order_def error_middleware_def)
qed

lemma example_cart_bad_price_malformed: "malformed_cart (JArr example_cart_bad_price)"
  by (simp add: malformed_cart_def example_cart_bad_price_def valid_item_def price_of_def
      quantity_of_def ToNumber_def coalesce_def nullish_def opt_def)

theorem create_order_malformed_witness:
  "status_code (fst (create_order example_env_disk_failure example_config
       (JArr example_cart_bad_price) empty_world)) = 500
   \<and> json_body (fst (create_order example_env_disk_failure example_config
       (JArr example_cart_bad_price) empty_world))
       = JObj [(''message'', JStr (invalid_price_message ''B''))]"
proof -
  from create_order_malformed[OF example_cart_bad_price_malformed,
      of example_env_disk_failure example_config empty_world]
  have "status_code (fst (create_order example_env_disk_failure example_config
       (JArr example_cart_bad_price) empty_world)) = 500" by blast
  moreover have "json_body (fst (create_order example_env_disk_failure example_config
       (JArr example_cart_bad_price) empty_world))
       = JObj [(''message'', JStr (invalid_price_message ''B''))]"
    using normalizeItems_example_bad_price
    by (simp add: create_order_def error_middleware_def example_config_def invalid_price_message_def)
  ultimately show ?thesis by simp
qed

text \<open>The claim as stated asks for a status from 400 to 499; the empty cart gets 500.\<close>

theorem create_order_malformed_counterexample:
  "malformed_cart (JArr [])
   \<and> \<not> (400 \<le> status_code (fst (create_order example_env_disk_failure example_config (JArr []) empty_world))
        \<and> status_code (fst (create_order example_env_disk_failure example_config (JArr []) empty_world)) < 500)"
  by (simp add: malformed_cart_def create_order_def normalizeItems_def error_middleware_def)

subsection \<open>The total of the order request\<close>

lemma orderPayload_amounts:
  "\<exists>pu. purchase_units (orderPayload cfg its) = [pu]
     \<and> val (amount pu) = calculateOrderTotal its
     \<and> val (item_total (breakdown (amount pu))) = calculateOrderTotal its
     \<and> items pu = its"
  by (simp add: orderPayload_def Let_def)

lemma calculateOrderTotal_format:
  assumes "foldl (\<lambda>sum item. js_add sum (js_mul (StringToNumber (val (unit_amount item)))
                                                  (StringToNumber (quantity item))))
              (Fin 0) its = Fin s"
    and "0 < s" and "s < 2 ^ 68"
  shows "amount_format (calculateOrderTotal its)"
  using amountToString_format[OF assms(2,3)] assms(1) by (simp add: calculateOrderTotal_def)

text \<open>
  C4. The order request has one purchase unit, and its \<open>amount.value\<close> and its
  \<open>amount.breakdown.item_total.value\<close> are the same string, \<open>calculateOrderTotal(items)\<close>
  (\<open>orderPayload_amounts\<close>); for the example cart of C1 it is "25.01"
  (\<open>calculateOrderTotal_rounding\<close>), and a sum below \<open>2\<^sup>6\<^sup>8\<close> gives a string in the
  two-decimal format (\<open>calculateOrderTotal_format\<close>). But the string is not always the
  sum with 2 decimals: the cart \<^verbatim>\<open>[{name:"A", price:2e20, quantity:6}]\<close> is valid, its item
  is normalized to the amount "200000000000000000000.00", and the total of the order
  request is "1.2e+21", because \<open>toFixed(2)\<close> prints a Number of \<open>10\<^sup>2\<^sup>1\<close> or more as
  \<open>String\<close> does.
\<close>

theorem orderPayload_total_exponent:
  "list_all valid_item example_cart_2e20
   \<and> normalizeItems ''USD'' (JArr example_cart_2e20) = Inr example_items_2e20
   \<and> list_all (\<lambda>y. amount_format (val (unit_amount y))) example_items_2e20
   \<and> (\<exists>pu. purchase_units (orderPayload example_config example_items_2e20) = [pu]
          \<and> val (amount pu) = ''1.2e+21''
          \<and> val (item_total (breakdown (amount pu))) = ''1.2e+21'')
   \<and> \<not> amount_format ''1.2e+21''"
proof -
  have 1: "list_all valid_item example_cart_2e20"
    by (simp add: example_cart_2e20_def valid_item_def price_of_def quantity_of_def ToNumber_def
        coalesce_def nullish_def opt_def trim_def is_ws_def)
  have 3: "list_all (\<lambda>y. amount_format (val (unit_amount y))) example_items_2e20"
    by (simp add: example_items_2e20_def amount_format_def is_digit_def)
  have 4: "\<exists>pu. purchase_units (orderPayload example_config example_items_2e20) = [pu]
          \<and> val (amount pu) = ''1.2e+21''
          \<and> val (item_total (breakdown (amount pu))) = ''1.2e+21''"
    using orderPayload_amounts[of example_config example_items_2e20]
    unfolding calculateOrderTotal_2e20 by blast
  have 5: "\<not> amount_format ''1.2e+21''" by (simp add: amount_format_def is_digit_def)
  show ?thesis using 1 normalizeItems_2e20 3 4 5 by blast
qed

theorem orderPayload_total_exponent_witness:
  "\<exists>pu. purchase_units (orderPayload example_config example_items_2e20) = [pu]
     \<and> val (amount pu) = val (item_total (breakdown (amount pu)))
     \<and> \<not> amount_format (val (amount pu))"
  using orderPayload_total_exponent by auto

subsection \<open>Amounts that are not in the two-decimal format\<close>

text \<open>
  C1. The prices of the claim's examples are rendered as it says: \<open>5.005\<close> as "5.01" and
  \<open>9.999\<close> as "10.00" (\<open>amountToString_5_005\<close>, \<open>amountToString_9_999\<close>), and the cart of
  the example has the total "25.01" (\<open>normalizeItems_rounding\<close>,
  \<open>calculateOrderTotal_rounding\<close>). When \<open>Math.round\<close> of the product \<open>price * 100\<close> is
  below \<open>2\<^sup>5\<^sup>2\<close>, the value is that number of cents with a point before its last two
  digits (\<open>amountToString_cents\<close>), and for a price below \<open>2\<^sup>6\<^sup>8\<close> it has the two-decimal
  format (\<open>amountToString_format\<close>). But not every finite price above 0 is rendered with
  2 decimals: the price \<open>1e307\<close> passes the three checks, its product with 100 is
  \<open>Infinity\<close>, and the item's \<open>unit_amount.value\<close> is "Infinity".
\<close>

theorem normalizeItems_price_overflow:
  "list_all valid_item example_cart_1e307
   \<and> normalizeItems ''USD'' (JArr example_cart_1e307) =
       Inr [\<lparr>reference_id = JStr ''ITEM-1'', name = ''A'', quantity = ''1'',
             category = JStr ''DIGITAL_GOODS'',
             unit_amount = \<lparr>currency_code = ''USD'', val = ''Infinity''\<rparr>\<rparr>]"
  by (simp add: example_cart_1e307_def valid_item_def price_of_def quantity_of_def ToNumber_def
      coalesce_def nullish_def opt_def optional_trim_def normalizeItems_def normalizeItem_def
      StringToNumber_1e307 amountToString_1e307[unfolded StringToNumber_1e307] pos_to_string_small
      trim_def is_ws_def decimal_small digit_char_def)

theorem normalizeItems_price_overflow_witness:
  "\<exists>ys. normalizeItems ''USD'' (JArr example_cart_1e307) = Inr ys
     \<and> \<not> list_all (\<lambda>y. amount_format (val (unit_amount y))) ys"
proof -
  have "\<not> amount_format ''Infinity''" by (simp add: amount_format_def is_digit_def)
  then show ?thesis using normalizeItems_price_overflow by simp
qed

text \<open>
  C3. The output for a valid cart has the length and the order of the input
  (\<open>map_items_valid\<close>), and every \<open>unit_amount.value\<close> matches \<^verbatim>\<open>/^\d+\.\d{2}$/\<close> when the
  prices are below \<open>2\<^sup>6\<^sup>8\<close> (\<open>normalizeItems_amount_format\<close>). But a value need not match
  for a larger price: the price \<open>1e22\<close> is valid, and \<open>toFixed(2)\<close> prints a Number of
  \<open>10\<^sup>2\<^sup>1\<close> or more as \<open>String\<close> does, here "1e+22".
\<close>

theorem normalizeItems_exponent_amount:
  "list_all valid_item example_cart_1e22
   \<and> normalizeItems ''USD'' (JArr example_cart_1e22) =
       Inr [\<lparr>reference_id = JStr ''ITEM-1'', name = ''A'', quantity = ''1'',
             category = JStr ''DIGITAL_GOODS'',
             unit_amount = \<lparr>currency_code = ''USD'', val = ''1e+22''\<rparr>\<rparr>]
   \<and> \<not> amount_format ''1e+22''"
  by (simp add: example_cart_1e22_def valid_item_def price_of_def quantity_of_def ToNumber_def
      coalesce_def nullish_def opt_def optional_trim_def normalizeItems_def normalizeItem_def
      amountToString_1e22[simplified] pos_to_string_small amount_format_examples
      trim_def is_ws_def decimal_small digit_char_def)

theorem normalizeItems_exponent_amount_witness:
  "\<exists>ys. normalizeItems ''USD'' (JArr example_cart_1e22) = Inr ys
     \<and> \<not> list_all (\<lambda>y. amount_format (val (unit_amount y))) ys"
  using normalizeItems_exponent_amount by simp

subsection \<open>The capture summary\<close>

lemma extractCaptureSummary_total:
  "payload \<noteq> JNull \<Longrightarrow> \<exists>summary. extractCaptureSummary payload = Inr summary"
  by (cases payload) (simp_all add: extractCaptureSummary_def Let_def)

text \<open>
  C7. \<open>extractCaptureSummary({})\<close> returns the summary whose fields are all \<open>undefined\<close>
  and whose \<open>items\<close> is the empty list; on the payload \<open>null\<close>, however, the function
  throws a TypeError: \<open>capturePayload.purchase_units\<close> is read without the \<open>?.\<close> that
  \<open>capturePayload?.payer\<close> has, and the default \<open>{}\<close> of the parameter replaces
  \<open>undefined\<close> only.
\<close>

theorem extractCaptureSummary_null:
  "extractCaptureSummary JNull = Inl (TypeError ''null'' ''purchase_units'')
   \<and> extractCaptureSummary (JObj []) =
       Inr (JObj [(''orderId'', JUndefined), (''captureId'', JUndefined), (''status'', JUndefined),
                  (''payerEmail'', JUndefined), (''payerGivenName'', JUndefined),
                  (''payerSurname'', JUndefined), (''amount'', JUndefined), (''currency'', JUndefined),
                  (''items'', JArr []), (''createTime'', JUndefined), (''updateTime'', JUndefined)])"
  by (simp add: extractCaptureSummary_def opt_def nullish_def)

theorem extractCaptureSummary_null_witness:
  "\<exists>e. extractCaptureSummary JNull = Inl e"
  using extractCaptureSummary_null by simp

text \<open>
  C9. The summary reads the payload's \<open>id\<close> and \<open>payer\<close>, the \<open>items\<close> of the first
  purchase unit and the first entry of that unit's \<open>payments.captures\<close>, and nothing
  else. Two payloads with the same \<open>id\<close> and \<open>payer\<close> have the same summary when their
  first purchase units have the same \<open>items\<close> and either lists of captures with the
  same first entry or no capture at all (a list that is empty, \<open>null\<close> or missing),
  whatever purchase units follow the first and whatever captures follow the first
  capture.
\<close>

theorem extractCaptureSummary_first_only:
  assumes "get_prop p ''id'' = get_prop p' ''id''"
    and "opt p ''payer'' = opt p' ''payer''"
    and "get_prop p ''purchase_units'' = Inr (JArr (u # us))"
    and "get_prop p' ''purchase_units'' = Inr (JArr (u' # us'))"
    and "opt u ''items'' = opt u' ''items''"
    and "(\<exists>c cs cs'. opt (opt u ''payments'') ''captures'' = JArr (c # cs)
                   \<and> opt (opt u' ''payments'') ''captures'' = JArr (c # cs'))
         \<or> (opt (opt u ''payments'') ''captures'' \<in> {JArr [], JNull, JUndefined}
             \<and> opt (opt u' ''payments'') ''captures'' \<in> {JArr [], JNull, JUndefined})"
  shows "extractCaptureSummary p = extractCaptureSummary p'"
proof -
  have p: "(if p = JUndefined then JObj [] else p) = p" "(if p' = JUndefined then JObj [] else p') = p'"
    using assms(3,4) by auto
  have i0: "(if nullish v then JUndefined else opt_index0 v) = opt_index0 v" for v
    by (auto simp: nullish_def)
  have c: "opt_index0 (opt (opt u ''payments'') ''captures'')
         = opt_index0 (opt (opt u' ''payments'') ''captures'')"
    using assms(6) by auto
  show ?thesis
    unfolding extractCaptureSummary_def Let_def p assms(1,2,3,4) i0
    by (cases "get_prop p' ''id''") (simp_all add: c assms(5))
qed

lemmas example_capture_defs =
  example_capture_def example_capture_many_def example_unit_def example_unit_many_def
  example_capture_entry_def example_capture_second_unit_def example_capture_no_capture_def
  example_unit_no_capture_def

theorem extractCaptureSummary_first_only_witness:
  "extractCaptureSummary example_capture_many = extractCaptureSummary example_capture
   \<and> extractCaptureSummary example_capture_many =
       Inr (JObj [(''orderId'', JStr ''O1''), (''captureId'', JStr ''C1''), (''status'', JStr ''COMPLETED''),
                  (''payerEmail'', JUndefined), (''payerGivenName'', JUndefined),
                  (''payerSurname'', JUndefined), (''amount'', JStr ''39.00''), (''currency'', JStr ''USD''),
                  (''items'', JArr []), (''createTime'', JUndefined), (''updateTime'', JUndefined)])
   \<and> extractCaptureSummary example_capture_second_unit = extractCaptureSummary example_capture_no_capture
   \<and> extractCaptureSummary example_capture_second_unit =
       Inr (JObj [(''orderId'', JStr ''O2''), (''captureId'', JUndefined), (''status'', JUndefined),
                  (''payerEmail'', JUndefined), (''payerGivenName'', JUndefined),
                  (''payerSurname'', JUndefined), (''amount'', JUndefined), (''currency'', JUndefined),
                  (''items'', JArr [JStr ''first'']), (''createTime'', JUndefined),
                  (''updateTime'', JUndefined)])"
proof -
  have 1: "extractCaptureSummary example_capture_many = extractCaptureSummary example_capture"
    by (rule extractCaptureSummary_first_only
          [where u = example_unit_many and u' = example_unit
             and us = "[JObj [(''items'', JArr [JStr ''other'']),
                        (''payments'', JObj [(''captures'', JArr [JObj [(''id'', JStr ''C3'')]])])]]"
             and us' = "[]"])
       (simp_all add: example_capture_many_def example_capture_def example_unit_many_def
          example_unit_def opt_def)
  have 2: "extractCaptureSummary example_capture =
       Inr (JObj [(''orderId'', JStr ''O1''), (''captureId'', JStr ''C1''), (''status'', JStr ''COMPLETED''),
                  (''payerEmail'', JUndefined), (''payerGivenName'', JUndefined),
                  (''payerSurname'', JUndefined), (''amount'', JStr ''39.00''), (''currency'', JStr ''USD''),
                  (''items'', JArr []), (''createTime'', JUndefined), (''updateTime'', JUndefined)])"
    by (simp add: extractCaptureSummary_def example_capture_defs opt_def nullish_def)
  have 3: "extractCaptureSummary example_capture_second_unit
         = extractCaptureSummary example_capture_no_capture"
    by (rule extractCaptureSummary_first_only
          [where u = example_unit_no_capture and u' = example_unit_no_capture
             and us = "[JObj [(''payments'', JObj [(''captures'', JArr [JObj [(''id'', JStr ''C3'')]])])]]"
             and us' = "[]"])
       (simp_all add: example_capture_second_unit_def example_capture_no_capture_def
          example_unit_no_capture_def opt_def)
  have 4: "extractCaptureSummary example_capture_no_capture =
       Inr (JObj [(''orderId'', JStr ''O2''), (''captureId'', JUndefined), (''status'', JUndefined),
                  (''payerEmail'', JUndefined), (''payerGivenName'', JUndefined),
                  (''payerSurname'', JUndefined), (''amount'', JUndefined), (''currency'', JUndefined),
                  (''items'', JArr [JStr ''first'']), (''createTime'', JUndefined),
                  (''updateTime'', JUndefined)])"
    by (simp add: extractCaptureSummary_def example_capture_defs opt_def nullish_def)
  show ?thesis using 1 2 3 4 by simp
qed

subsection \<open>Capturing an order\<close>

text \<open>
  C8. When the gateway returns a capture response, the handler of
  \<open>POST /api/orders/:orderId/capture\<close> answers 200 with that payload unchanged, whatever
  the two file-system calls do; when one of them fails, the failure is written to the
  console, no record is appended, and nothing else changes.
\<close>

theorem capture_order_persist_swallowed:
  assumes "paypalRequest ev cfg (''/v2/checkout/orders/'' @ orderId @ ''/capture'') ''POST'' NoBody w
             = (Inr capture, w')"
  shows "fst (capture_order ev cfg orderId w) = \<lparr>status_code = 200, json_body = capture\<rparr>
    \<and> calls (snd (capture_order ev cfg orderId w)) = calls w'
    \<and> (mkdir ev \<noteq> None \<or> appendFile ev \<noteq> None \<longrightarrow>
         transactions (snd (capture_order ev cfg orderId w)) = transactions w'
         \<and> console (snd (capture_order ev cfg orderId w)) = console w' @ [''Failed to persist capture record''])"
  using assms
  by (auto simp: capture_order_def persistCapture_def Let_def split: option.splits sum.splits)

lemma example_capture_request:
  "paypalRequest example_env_disk_failure example_config (''/v2/checkout/orders/'' @ ''O1'' @ ''/capture'') ''POST'' NoBody empty_world
     = (Inr example_capture,
        \<lparr>calls = [\<lparr>url = ''https://api-m.sandbox.paypal.com/v1/oauth2/token'', http_method = ''POST'',
                    auth = Basic ''client:secret'', body = FormBody ''grant_type=client_credentials''\<rparr>,
                  \<lparr>url = ''https://api-m.sandbox.paypal.com/v2/checkout/orders/O1/capture'', http_method = ''POST'',
                    auth = Bearer ''A21AA'', body = NoBody\<rparr>],
         console = [], transactions = []\<rparr>)"
  by (simp add: paypalRequest_def generateAccessToken_def example_env_disk_failure_def example_config_def
      example_fetch_def empty_world_def truthy_env_def Let_def)

theorem capture_order_persist_swallowed_witness:
  "fst (capture_order example_env_disk_failure example_config ''O1'' empty_world)
     = \<lparr>status_code = 200, json_body = example_capture\<rparr>
   \<and> transactions (snd (capture_order example_env_disk_failure example_config ''O1'' empty_world)) = []
   \<and> console (snd (capture_order example_env_disk_failure example_config ''O1'' empty_world))
       = [''Failed to persist capture record'']"
  using capture_order_persist_swallowed[OF example_capture_request]
  by (simp add: example_env_disk_failure_def)

end
